theory Spec2Isabelle
  imports Main "HOL-Library.AList"
begin

section \<open>Python values, strings and dictionaries\<close>

text \<open>
  The module under verification is \<^verbatim>\<open>dynagrpc/__init__.py\<close>. Python strings are
  modelled as \<^typ>\<open>string\<close>; protobuf identifiers are ASCII, and the case
  conversions below are the ASCII part of \<^verbatim>\<open>str.upper\<close> and \<^verbatim>\<open>str.lower\<close>.
\<close>

definition upper_letters :: string where
  "upper_letters = ''ABCDEFGHIJKLMNOPQRSTUVWXYZ''"

definition lower_letters :: string where
  "lower_letters = ''abcdefghijklmnopqrstuvwxyz''"

text \<open>The character class \<^verbatim>\<open>[A-Z]\<close> of the regular expression.\<close>

definition is_upper :: "char \<Rightarrow> bool" where
  "is_upper ch = (ch \<in> set upper_letters)"

definition lower_char :: "char \<Rightarrow> char" where
  "lower_char ch =
     (case map_of (zip upper_letters lower_letters) ch of Some l \<Rightarrow> l | None \<Rightarrow> ch)"

definition upper_char :: "char \<Rightarrow> char" where
  "upper_char ch =
     (case map_of (zip lower_letters upper_letters) ch of Some u \<Rightarrow> u | None \<Rightarrow> ch)"

text \<open>\<^verbatim>\<open>str.lower\<close> and \<^verbatim>\<open>str.upper\<close>.\<close>

definition lower :: "string \<Rightarrow> string" where
  "lower s = map lower_char s"

definition upper :: "string \<Rightarrow> string" where
  "upper s = map upper_char s"

text \<open>\<^verbatim>\<open>sep.join(parts)\<close>.\<close>

fun join :: "string \<Rightarrow> string list \<Rightarrow> string" where
  "join sep [] = []"
| "join sep [x] = x"
| "join sep (x # y # ys) = x @ sep @ join sep (y # ys)"

text \<open>\<^verbatim>\<open>s.startswith(p)\<close>.\<close>

definition startswith :: "string \<Rightarrow> string \<Rightarrow> bool" where
  "startswith s p = (take (length p) s = p)"

text \<open>
  Values that occur as keys and values of the enum dictionaries: integers, strings and
  \<^verbatim>\<open>None\<close>.
\<close>

datatype pyval = PyNone | PyInt int | PyStr string

text \<open>
  A Python \<^verbatim>\<open>dict\<close> is an association list in insertion order; storing under a key
  that is present replaces the value in place, storing under a new key appends
  (\<^const>\<open>AList.update\<close>). A dict comprehension stores its pairs one after the other
  into an empty dict.
\<close>

type_synonym pydict = "(pyval \<times> pyval) list"

definition dict_comprehension :: "('a \<Rightarrow> pyval \<times> pyval) \<Rightarrow> 'a list \<Rightarrow> pydict" where
  "dict_comprehension f items =
     fold (\<lambda>item acc. AList.update (fst (f item)) (snd (f item)) acc) items []"

section \<open>pascal2snake\<close>

text \<open>
  \<^verbatim>\<open>re.findall("[A-Z][^A-Z]*", name)\<close>: the non-overlapping matches from left to
  right. A match starts at the next upper-case letter and takes every following character
  that is not an upper-case letter; characters before the first upper-case letter belong
  to no match.
\<close>

function findall_runs :: "string \<Rightarrow> string list" where
  "findall_runs [] = []"
| "findall_runs (ch # cs) =
     (if is_upper ch
      then (ch # takeWhile (\<lambda>x. \<not> is_upper x) cs)
             # findall_runs (dropWhile (\<lambda>x. \<not> is_upper x) cs)
      else findall_runs cs)"
  by pat_completeness auto
termination
  by (relation "measure length") (auto simp: less_Suc_eq_le length_dropWhile_le)

text \<open>
  \<^verbatim>\<open>itertools.groupby(iterable, key)\<close>: consecutive elements with equal key form a
  group, which is yielded with its key.
\<close>

function groupby :: "('a \<Rightarrow> 'k) \<Rightarrow> 'a list \<Rightarrow> ('k \<times> 'a list) list" where
  "groupby key [] = []"
| "groupby key (x # xs) =
     (key x, x # takeWhile (\<lambda>y. key y = key x) xs)
       # groupby key (dropWhile (\<lambda>y. key y = key x) xs)"
  by pat_completeness auto
termination
  by (relation "measure (\<lambda>(key, xs). length xs)")
     (auto simp: less_Suc_eq_le length_dropWhile_le)

text \<open>
  \<^verbatim>\<open>
  def pascal2snake(name):
      return "_".join(
          ("" if length == 1 else "_").join(group).lower()
          for length, group in groupby(re.findall("[A-Z][^A-Z]*", name), len)
      )
  \<close>
\<close>

definition pascal2snake :: "string \<Rightarrow> string" where
  "pascal2snake name =
     join ''_''
       (map (\<lambda>(len, group). lower (join (if len = 1 then '''' else ''_'') group))
            (groupby length (findall_runs name)))"

section \<open>create\_enum\_dict\<close>

text \<open>
  Enum descriptors are objects of the protobuf library and are read only. The attributes
  the module reads are \<^verbatim>\<open>name\<close>, \<^verbatim>\<open>full_name\<close>, \<^verbatim>\<open>values\<close> and the two dictionaries
  \<^verbatim>\<open>values_by_number\<close> and \<^verbatim>\<open>values_by_name\<close>, given here by their items in
  iteration order.
\<close>

record EnumValueDescriptor =
  value_name :: string
  value_number :: int

record EnumDescriptor =
  enum_name :: string
  enum_full_name :: string
  enum_values :: "EnumValueDescriptor list"
  values_by_number :: "(int \<times> EnumValueDescriptor) list"
  values_by_name :: "(string \<times> EnumValueDescriptor) list"

text \<open>
  What the protobuf library guarantees of the two dictionaries: their keys are distinct
  (they are dictionaries), and every key of \<^verbatim>\<open>values_by_name\<close> is the name of one of
  the enum's values.
\<close>

definition enum_descriptor_ok :: "EnumDescriptor \<Rightarrow> bool" where
  "enum_descriptor_ok e =
     (distinct (map fst (values_by_number e)) \<and>
      distinct (map fst (values_by_name e)) \<and>
      list_all (\<lambda>k. k \<in> value_name ` set (enum_values e)) (map fst (values_by_name e)))"

text \<open>
  Exceptions are values. The two \<^verbatim>\<open>ValueError\<close> messages are f-strings that format
  their argument with \<^verbatim>\<open>!r\<close>; the message is kept as a constructor holding the
  unformatted argument. A \<^verbatim>\<open>KeyError\<close> holds the key that was missing: a full name
  for a dictionary of the namespace, a descriptor for the set of descriptors in progress.
  \<open>Raised\<close> stands for an exception that comes from outside this module.
\<close>

datatype fstring =
    Prefix_not_common string
  | Unknown_mode string

datatype error =
    ValueError fstring
  | NotImplementedError string
  | KeyError_name string
  | KeyError_descriptor nat
  | Raised string

text \<open>
  \<^verbatim>\<open>warnings.warn(text, DynaGrpcWarning)\<close> is modelled as output: a call returns the
  list of warnings it issued next to its result.
\<close>

datatype warning = DynaGrpcWarning string

text \<open>
  \<^verbatim>\<open>
  def create_enum_dict(enum_type, mode, prefix=None):
      common = prefix
      if prefix is None:
          common = pascal2snake(enum_type.name).upper() + "_"
      else:
          common = prefix
      if all(value.name.startswith(common) for value in enum_type.values):
          threshold = len(common)
      elif prefix is not None:
          raise ValueError(f"The {prefix!r} prefix is not common for all values")
      else:
          warnings.warn(f"Missing values prefix in enum {enum_type.full_name}",
                        DynaGrpcWarning)
          threshold = 0
      if mode == "int2str":
          pairs = enum_type.values_by_number.items()
          return {number: value.name[threshold:] for number, value in pairs}
      if mode == "str2int":
          pairs = enum_type.values_by_name.items()
          return {name[threshold:]: value.number for name, value in pairs}
      raise ValueError(f"Unknown mode {mode!r}")
  \<close>
\<close>

definition derived_prefix :: "EnumDescriptor \<Rightarrow> string" where
  "derived_prefix enum_type = upper (pascal2snake (enum_name enum_type)) @ ''_''"

definition enum_pairs :: "EnumDescriptor \<Rightarrow> string \<Rightarrow> nat \<Rightarrow> error + pydict" where
  "enum_pairs enum_type mode threshold =
     (if mode = ''int2str'' then
        Inr (dict_comprehension
               (\<lambda>(number, v). (PyInt number, PyStr (drop threshold (value_name v))))
               (values_by_number enum_type))
      else if mode = ''str2int'' then
        Inr (dict_comprehension
               (\<lambda>(name, v). (PyStr (drop threshold name), PyInt (value_number v)))
               (values_by_name enum_type))
      else Inl (ValueError (Unknown_mode mode)))"

definition create_enum_dict ::
  "EnumDescriptor \<Rightarrow> string \<Rightarrow> string option \<Rightarrow> warning list \<times> (error + pydict)" where
  "create_enum_dict enum_type mode prefix =
     (let common = (case prefix of None \<Rightarrow> derived_prefix enum_type | Some p \<Rightarrow> p) in
      if list_all (\<lambda>v. startswith (value_name v) common) (enum_values enum_type)
      then ([], enum_pairs enum_type mode (length common))
      else (case prefix of
              Some p \<Rightarrow> ([], Inl (ValueError (Prefix_not_common p)))
            | None \<Rightarrow>
                ([DynaGrpcWarning
                    (''Missing values prefix in enum '' @ enum_full_name enum_type)],
                 enum_pairs enum_type mode 0)))"

section \<open>GrpcTypeCastRegistry\<close>

subsection \<open>Descriptors\<close>

text \<open>
  Message and field descriptors are objects of the protobuf library, read only, and a
  message may refer to itself through its fields. A message descriptor is therefore a
  reference (a natural number) into a store of descriptors, and \<^verbatim>\<open>field.message_type\<close>
  is such a reference or \<^verbatim>\<open>None\<close>. \<^verbatim>\<open>mt.GetOptions().map_entry\<close> is the attribute
  \<open>map_entry\<close>, \<^verbatim>\<open>message_type.fields\<close> is \<open>message_fields\<close>; reading \<^verbatim>\<open>_concrete_class\<close> yields the message class or raises.
\<close>

record FieldDescriptor =
  field_full_name :: string
  field_message_type :: "nat option"

record 'o Descriptor =
  message_full_name :: string
  message_fields :: "FieldDescriptor list"
  map_entry :: bool
  concrete_class :: "error + 'o"

subsection \<open>The namespace\<close>

text \<open>
  The callables stored in the namespace: \<^verbatim>\<open>operator.attrgetter(name)\<close>,
  \<^verbatim>\<open>functools.partial(fail, error_message)\<close>, and the lambdas compiled by
  \<^verbatim>\<open>_astcast.create_lambda\<close>. Objects made outside this module (syntax trees, compiled
  lambdas, classes) have the type \<^typ>\<open>'o\<close>.
\<close>

datatype 'o callable = attrgetter string | partial_fail string | compiled 'o

text \<open>
  \<^verbatim>\<open>
  self._namespace = AttrDict(d=dict_cls, m2p={}, p2m={}, f2p={}, p2f={},
                             i2s={}, s2i={}, c={})
  self._registering = set()
  \<close>
  The entries \<^verbatim>\<open>d\<close> and \<^verbatim>\<open>c\<close> are the fields \<open>ns_d\<close> and \<open>ns_c\<close>.
\<close>

record 'o namespace =
  ns_d :: 'o
  m2p :: "string \<rightharpoonup> 'o callable"
  p2m :: "string \<rightharpoonup> 'o callable"
  f2p :: "string \<rightharpoonup> 'o callable"
  p2f :: "string \<rightharpoonup> 'o callable"
  i2s :: "string \<rightharpoonup> pydict"
  s2i :: "string \<rightharpoonup> pydict"
  ns_c :: "string \<rightharpoonup> 'o"

record 'o registry =
  namespace :: "'o namespace"
  registering :: "nat set"

definition set_m2p :: "string \<Rightarrow> 'o callable \<Rightarrow> 'o registry \<Rightarrow> 'o registry" where
  "set_m2p k v r = r\<lparr>namespace := (namespace r)\<lparr>m2p := (m2p (namespace r))(k \<mapsto> v)\<rparr>\<rparr>"

definition set_p2m :: "string \<Rightarrow> 'o callable \<Rightarrow> 'o registry \<Rightarrow> 'o registry" where
  "set_p2m k v r = r\<lparr>namespace := (namespace r)\<lparr>p2m := (p2m (namespace r))(k \<mapsto> v)\<rparr>\<rparr>"

definition set_f2p :: "string \<Rightarrow> 'o callable \<Rightarrow> 'o registry \<Rightarrow> 'o registry" where
  "set_f2p k v r = r\<lparr>namespace := (namespace r)\<lparr>f2p := (f2p (namespace r))(k \<mapsto> v)\<rparr>\<rparr>"

definition set_p2f :: "string \<Rightarrow> 'o callable \<Rightarrow> 'o registry \<Rightarrow> 'o registry" where
  "set_p2f k v r = r\<lparr>namespace := (namespace r)\<lparr>p2f := (p2f (namespace r))(k \<mapsto> v)\<rparr>\<rparr>"

definition set_i2s :: "string \<Rightarrow> pydict \<Rightarrow> 'o registry \<Rightarrow> 'o registry" where
  "set_i2s k v r = r\<lparr>namespace := (namespace r)\<lparr>i2s := (i2s (namespace r))(k \<mapsto> v)\<rparr>\<rparr>"

definition set_s2i :: "string \<Rightarrow> pydict \<Rightarrow> 'o registry \<Rightarrow> 'o registry" where
  "set_s2i k v r = r\<lparr>namespace := (namespace r)\<lparr>s2i := (s2i (namespace r))(k \<mapsto> v)\<rparr>\<rparr>"

definition set_c :: "string \<Rightarrow> 'o \<Rightarrow> 'o registry \<Rightarrow> 'o registry" where
  "set_c k v r = r\<lparr>namespace := (namespace r)\<lparr>ns_c := (ns_c (namespace r))(k \<mapsto> v)\<rparr>\<rparr>"

subsection \<open>The module \_astcast\<close>

text \<open>
  The functions and the table of the sibling module \<^verbatim>\<open>_astcast\<close> are parameters of
  the model, one field for each name the registry uses, with the arguments of its call
  sites in the order of their keywords. Each function returns an object or raises; none
  of them changes the namespace it is handed.
\<close>

record 'o astcast =
  GOOGLE_PROTOBUF_WRAPPERS :: "(string \<times> 'o) list"
  create_lambda :: "'o \<Rightarrow> string \<Rightarrow> string \<Rightarrow> 'o namespace \<Rightarrow> error + 'o"
  wrapper2message_ast :: "string \<Rightarrow> string \<Rightarrow> string \<Rightarrow> error + 'o"
  wrap_call_ast :: "string \<Rightarrow> 'o \<Rightarrow> error + 'o"
  message2dict_ast :: "nat \<Rightarrow> string \<Rightarrow> (string \<rightharpoonup> pydict) \<Rightarrow> string \<Rightarrow> error + 'o"
  dict2message_ast :: "nat \<Rightarrow> string \<Rightarrow> string \<Rightarrow> string \<Rightarrow> error + 'o"
  field_cast_ast :: "string \<Rightarrow> string \<Rightarrow> FieldDescriptor \<Rightarrow> string \<Rightarrow> error + 'o"

text \<open>Evaluating an argument that raises ends the enclosing call with that exception.\<close>

definition bind_raise :: "error + 'a \<Rightarrow> ('a \<Rightarrow> error + 'b) \<Rightarrow> error + 'b" where
  "bind_raise x f = (case x of Inl e \<Rightarrow> Inl e | Inr a \<Rightarrow> f a)"

subsection \<open>Construction\<close>

text \<open>
  \<^verbatim>\<open>
  for full_name, wrapper in _astcast.GOOGLE_PROTOBUF_WRAPPERS.items():
      self._namespace.c[full_name] = wrapper
      self._namespace.m2p[full_name] = attrgetter("value")
      self._namespace.p2m[full_name] = _astcast.create_lambda(
          return_ast=_astcast.wrapper2message_ast(
              full_name=full_name, value_name="arg", constructors_regname="c"),
          arg_name="arg", file_name=f"<p2m/{full_name}>",
          namespace=self._namespace)
  \<close>
\<close>

fun register_wrappers ::
  "'o astcast \<Rightarrow> (string \<times> 'o) list \<Rightarrow> 'o namespace \<Rightarrow> error + 'o namespace" where
  "register_wrappers A [] ns = Inr ns"
| "register_wrappers A ((full_name, wrapper) # rest) ns =
     (let ns1 = ns\<lparr>ns_c := (ns_c ns)(full_name \<mapsto> wrapper)\<rparr>;
          ns2 = ns1\<lparr>m2p := (m2p ns1)(full_name \<mapsto> attrgetter ''value'')\<rparr>
      in case bind_raise (wrapper2message_ast A full_name ''arg'' ''c'')
                (\<lambda>return_ast.
                   create_lambda A return_ast ''arg'' (''<p2m/'' @ full_name @ ''>'') ns2) of
           Inl e \<Rightarrow> Inl e
         | Inr f \<Rightarrow>
             register_wrappers A rest (ns2\<lparr>p2m := (p2m ns2)(full_name \<mapsto> compiled f)\<rparr>))"

text \<open>
  \<^verbatim>\<open>
  def fail(error_message, unused_input):
      raise NotImplementedError(error_message)

  for name in ("ListValue", "Struct", "Value", "Any", "Duration", "FieldMask",
               "Timestamp"):
      full_name = "google.protobuf." + name
      named_fail = partial(fail, full_name)
      self._namespace.m2p[full_name] = named_fail
      self._namespace.p2m[full_name] = named_fail
  \<close>
\<close>

definition fail :: "string \<Rightarrow> 'v \<Rightarrow> error + 'w" where
  "fail error_message unused_input = Inl (NotImplementedError error_message)"

definition not_implemented_names :: "string list" where
  "not_implemented_names =
     [''ListValue'', ''Struct'', ''Value'', ''Any'', ''Duration'', ''FieldMask'',
      ''Timestamp'']"

fun register_failures :: "string list \<Rightarrow> 'o namespace \<Rightarrow> 'o namespace" where
  "register_failures [] ns = ns"
| "register_failures (name # rest) ns =
     (let full_name = ''google.protobuf.'' @ name;
          named_fail = partial_fail full_name;
          ns1 = ns\<lparr>m2p := (m2p ns)(full_name \<mapsto> named_fail)\<rparr>
      in register_failures rest (ns1\<lparr>p2m := (p2m ns1)(full_name \<mapsto> named_fail)\<rparr>))"

text \<open>
  \<^verbatim>\<open>_register_google_types\<close>: the \<^verbatim>\<open>NullValue\<close> enum, the wrappers, the types that
  are not implemented.
  \<^verbatim>\<open>
  self._namespace.i2s["google.protobuf.NullValue"] = {0: None}
  self._namespace.s2i["google.protobuf.NullValue"] = {None: 0}
  \<close>
\<close>

definition register_google_types :: "'o astcast \<Rightarrow> 'o namespace \<Rightarrow> error + 'o namespace" where
  "register_google_types A ns =
     (let ns1 = ns\<lparr>i2s := (i2s ns)(''google.protobuf.NullValue'' \<mapsto> [(PyInt 0, PyNone)])\<rparr>;
          ns2 = ns1\<lparr>s2i := (s2i ns1)(''google.protobuf.NullValue'' \<mapsto> [(PyNone, PyInt 0)])\<rparr>
      in case register_wrappers A (GOOGLE_PROTOBUF_WRAPPERS A) ns2 of
           Inl e \<Rightarrow> Inl e
         | Inr ns3 \<Rightarrow> Inr (register_failures not_implemented_names ns3))"

text \<open>\<^verbatim>\<open>GrpcTypeCastRegistry.__init__(self, dict_cls)\<close>.\<close>

definition init :: "'o astcast \<Rightarrow> 'o \<Rightarrow> error + 'o registry" where
  "init A dict_cls =
     (case register_google_types A
             \<lparr>ns_d = dict_cls, m2p = Map.empty, p2m = Map.empty, f2p = Map.empty,
              p2f = Map.empty, i2s = Map.empty, s2i = Map.empty, ns_c = Map.empty\<rparr> of
        Inl e \<Rightarrow> Inl e
      | Inr ns \<Rightarrow> Inr \<lparr>namespace = ns, registering = {}\<rparr>)"

subsection \<open>Registration\<close>

text \<open>
  A registration call changes the registry and then returns or raises: its result is the
  registry after the call with \<open>None\<close> for a normal return and \<open>Some e\<close> for the
  exception \<open>e\<close>.
  \<^verbatim>\<open>
  def register_enum_type(self, enum_type):
      full_name = enum_type.full_name
      self._namespace.i2s[full_name] = create_enum_dict(enum_type, "int2str")
      self._namespace.s2i[full_name] = create_enum_dict(enum_type, "str2int")
  \<close>
\<close>

definition register_enum_type ::
  "EnumDescriptor \<Rightarrow> 'o registry \<Rightarrow> warning list \<times> ('o registry \<times> error option)" where
  "register_enum_type enum_type r =
     (let full_name = enum_full_name enum_type;
          (w1, res1) = create_enum_dict enum_type ''int2str'' None
      in case res1 of
           Inl e \<Rightarrow> (w1, (r, Some e))
         | Inr dict1 \<Rightarrow>
             (let r1 = set_i2s full_name dict1 r;
                  (w2, res2) = create_enum_dict enum_type ''str2int'' None
              in case res2 of
                   Inl e \<Rightarrow> (w1 @ w2, (r1, Some e))
                 | Inr dict2 \<Rightarrow> (w1 @ w2, (set_s2i full_name dict2 r1, None))))"

text \<open>The two lambdas of a message and the lambda of a field for one direction.\<close>

definition m2p_lambda ::
  "'o astcast \<Rightarrow> nat \<Rightarrow> string \<Rightarrow> 'o namespace \<Rightarrow> error + 'o" where
  "m2p_lambda A message_type full_name ns =
     bind_raise (message2dict_ast A message_type ''msg'' (i2s ns) ''f2p'')
       (\<lambda>input_ast. bind_raise (wrap_call_ast A ''d'' input_ast)
          (\<lambda>return_ast. create_lambda A return_ast ''msg'' (''<m2p/'' @ full_name @ ''>'') ns))"

definition p2m_lambda ::
  "'o astcast \<Rightarrow> nat \<Rightarrow> string \<Rightarrow> 'o namespace \<Rightarrow> error + 'o" where
  "p2m_lambda A message_type full_name ns =
     bind_raise (dict2message_ast A message_type ''data'' ''c'' ''p2f'')
       (\<lambda>return_ast. create_lambda A return_ast ''data'' (''<p2m/'' @ full_name @ ''>'') ns)"

definition field_lambda ::
  "'o astcast \<Rightarrow> string \<Rightarrow> string \<Rightarrow> FieldDescriptor \<Rightarrow> 'o namespace \<Rightarrow> error + 'o" where
  "field_lambda A msg_regname enum_regname field ns =
     bind_raise (field_cast_ast A msg_regname enum_regname field ''value'')
       (\<lambda>return_ast. create_lambda A return_ast ''value''
          (''<'' @ msg_regname @ ''/'' @ field_full_name field @ ''>'') ns)"

text \<open>
  The second half of \<^verbatim>\<open>register_field_type\<close>:
  \<^verbatim>\<open>
  for registry, msg_regname, enum_regname in (
      (self._namespace.f2p, "m2p", "i2s"),
      (self._namespace.p2f, "p2m", "s2i"),
  ):
      registry[field.full_name] = _astcast.create_lambda(
          return_ast=_astcast.field_cast_ast(msg_regname=msg_regname,
              enum_regname=enum_regname, field=field, value_name="value"),
          arg_name="value", file_name=f"<{msg_regname}/{field.full_name}>",
          namespace=self._namespace)
  \<close>
\<close>

definition register_field_lambdas ::
  "'o astcast \<Rightarrow> FieldDescriptor \<Rightarrow> 'o registry \<Rightarrow> 'o registry \<times> error option" where
  "register_field_lambdas A field r =
     (case field_lambda A ''m2p'' ''i2s'' field (namespace r) of
        Inl e \<Rightarrow> (r, Some e)
      | Inr f \<Rightarrow>
          (let r1 = set_f2p (field_full_name field) (compiled f) r
           in case field_lambda A ''p2m'' ''s2i'' field (namespace r1) of
                Inl e \<Rightarrow> (r1, Some e)
              | Inr g \<Rightarrow> (set_p2f (field_full_name field) (compiled g) r1, None)))"

text \<open>
  The \<^verbatim>\<open>finally\<close> clause of \<^verbatim>\<open>register_message_type\<close>:
  \<^verbatim>\<open>self._registering.remove(message_type)\<close> runs after the body, whether it returned or
  raised, and raises \<^verbatim>\<open>KeyError\<close> itself when the descriptor is not in the set.
\<close>

definition finally_remove ::
  "nat \<Rightarrow> 'o registry \<times> error option \<Rightarrow> 'o registry \<times> error option" where
  "finally_remove message_type res =
     (case res of (r, e) \<Rightarrow>
        if message_type \<in> registering r
        then (r\<lparr>registering := registering r - {message_type}\<rparr>, e)
        else (r, Some (KeyError_descriptor message_type)))"

text \<open>
  \<^verbatim>\<open>
  def register_message_type(self, message_type):
      full_name = message_type.full_name
      if full_name in self._namespace.m2p:
          return
      self._registering.add(message_type)
      try:
          self._namespace.m2p[full_name] = _astcast.create_lambda(...)
          self._namespace.p2m[full_name] = _astcast.create_lambda(...)
          for field in message_type.fields:
              self.register_field_type(field)
          self._namespace.c[full_name] = message_type._concrete_class
      finally:
          self._registering.remove(message_type)

  def register_field_type(self, field):
      mt = field.message_type
      if mt and not (mt.GetOptions().map_entry or mt in self._registering):
          self.register_message_type(mt)
      for registry, msg_regname, enum_regname in (...): ...
  \<close>
  The two methods call each other, and nothing in their text bounds the depth of the
  calls. The model counts the depth of the calls of \<^verbatim>\<open>register_message_type\<close> down from
  a bound given as argument: \<open>None\<close> is the result of a call tree deeper than the
  bound. \<open>register_fields\<close> is the loop over \<^verbatim>\<open>message_type.fields\<close>, which ends at
  the first exception.
\<close>

fun register_message_type ::
    "'o astcast \<Rightarrow> (nat \<Rightarrow> 'o Descriptor) \<Rightarrow> nat \<Rightarrow> nat \<Rightarrow> 'o registry
       \<Rightarrow> ('o registry \<times> error option) option"
  and register_fields ::
    "'o astcast \<Rightarrow> (nat \<Rightarrow> 'o Descriptor) \<Rightarrow> nat \<Rightarrow> FieldDescriptor list \<Rightarrow> 'o registry
       \<Rightarrow> ('o registry \<times> error option) option"
  and register_field_type ::
    "'o astcast \<Rightarrow> (nat \<Rightarrow> 'o Descriptor) \<Rightarrow> nat \<Rightarrow> FieldDescriptor \<Rightarrow> 'o registry
       \<Rightarrow> ('o registry \<times> error option) option"
where
  "register_message_type A D 0 message_type r = None"
| "register_message_type A D (Suc depth) message_type r =
     (let full_name = message_full_name (D message_type) in
      if m2p (namespace r) full_name \<noteq> None then Some (r, None)
      else
        let r1 = r\<lparr>registering := insert message_type (registering r)\<rparr> in
        map_option (finally_remove message_type)
          (case m2p_lambda A message_type full_name (namespace r1) of
             Inl e \<Rightarrow> Some (r1, Some e)
           | Inr f \<Rightarrow>
               let r2 = set_m2p full_name (compiled f) r1 in
               (case p2m_lambda A message_type full_name (namespace r2) of
                  Inl e \<Rightarrow> Some (r2, Some e)
                | Inr g \<Rightarrow>
                    let r3 = set_p2m full_name (compiled g) r2 in
                    (case register_fields A D depth (message_fields (D message_type)) r3 of
                       None \<Rightarrow> None
                     | Some (r4, Some e) \<Rightarrow> Some (r4, Some e)
                     | Some (r4, None) \<Rightarrow>
                         (case concrete_class (D message_type) of
                            Inl e \<Rightarrow> Some (r4, Some e)
                          | Inr cls \<Rightarrow> Some (set_c full_name cls r4, None))))))"
| "register_fields A D depth [] r = Some (r, None)"
| "register_fields A D depth (field # rest) r =
     (case register_field_type A D depth field r of
        None \<Rightarrow> None
      | Some (r1, Some e) \<Rightarrow> Some (r1, Some e)
      | Some (r1, None) \<Rightarrow> register_fields A D depth rest r1)"
| "register_field_type A D depth field r =
     (case (case field_message_type field of
              None \<Rightarrow> Some (r, None)
            | Some mt \<Rightarrow>
                if \<not> (map_entry (D mt) \<or> mt \<in> registering r)
                then register_message_type A D depth mt r
                else Some (r, None)) of
        None \<Rightarrow> None
      | Some (r1, Some e) \<Rightarrow> Some (r1, Some e)
      | Some (r1, None) \<Rightarrow> Some (register_field_lambdas A field r1))"

text \<open>
  The messages a call tree compiles: the descriptors for which a call of
  \<^verbatim>\<open>register_message_type\<close> passes the test of \<^verbatim>\<open>m2p\<close> and reaches the creation of
  its lambdas, in the order of the calls. The three functions follow the three above
  call by call; the registry of each step is the one computed there.
\<close>

fun register_message_type_compiles ::
    "'o astcast \<Rightarrow> (nat \<Rightarrow> 'o Descriptor) \<Rightarrow> nat \<Rightarrow> nat \<Rightarrow> 'o registry \<Rightarrow> nat list"
  and register_fields_compiles ::
    "'o astcast \<Rightarrow> (nat \<Rightarrow> 'o Descriptor) \<Rightarrow> nat \<Rightarrow> FieldDescriptor list \<Rightarrow> 'o registry
       \<Rightarrow> nat list"
  and register_field_type_compiles ::
    "'o astcast \<Rightarrow> (nat \<Rightarrow> 'o Descriptor) \<Rightarrow> nat \<Rightarrow> FieldDescriptor \<Rightarrow> 'o registry \<Rightarrow> nat list"
where
  "register_message_type_compiles A D 0 message_type r = []"
| "register_message_type_compiles A D (Suc depth) message_type r =
     (let full_name = message_full_name (D message_type) in
      if m2p (namespace r) full_name \<noteq> None then []
      else
        let r1 = r\<lparr>registering := insert message_type (registering r)\<rparr> in
        message_type #
          (case m2p_lambda A message_type full_name (namespace r1) of
             Inl e \<Rightarrow> []
           | Inr f \<Rightarrow>
               let r2 = set_m2p full_name (compiled f) r1 in
               (case p2m_lambda A message_type full_name (namespace r2) of
                  Inl e \<Rightarrow> []
                | Inr g \<Rightarrow>
                    let r3 = set_p2m full_name (compiled g) r2 in
                    register_fields_compiles A D depth (message_fields (D message_type)) r3)))"
| "register_fields_compiles A D depth [] r = []"
| "register_fields_compiles A D depth (field # rest) r =
     register_field_type_compiles A D depth field r @
     (case register_field_type A D depth field r of
        None \<Rightarrow> []
      | Some (r1, Some e) \<Rightarrow> []
      | Some (r1, None) \<Rightarrow> register_fields_compiles A D depth rest r1)"
| "register_field_type_compiles A D depth field r =
     (case field_message_type field of
        None \<Rightarrow> []
      | Some mt \<Rightarrow>
          if \<not> (map_entry (D mt) \<or> mt \<in> registering r)
          then register_message_type_compiles A D depth mt r
          else [])"

subsection \<open>Conversion\<close>

text \<open>
  Calling a stored callable: \<^verbatim>\<open>partial(fail, error_message)(x)\<close> is
  \<^verbatim>\<open>fail(error_message, x)\<close>; what the other callables do is decided outside this
  module and is the parameter \<open>ext\<close>.
  \<^verbatim>\<open>
  def proto2py(self, message):
      return self._namespace.m2p[message.DESCRIPTOR.full_name](message)

  def py2proto(self, message_cls, data):
      return self._namespace.p2m[message_cls.DESCRIPTOR.full_name](data)
  \<close>
  \<open>descriptor_full_name\<close> gives \<^verbatim>\<open>DESCRIPTOR.full_name\<close> of a message or of a
  message class.
\<close>

fun call :: "('o callable \<Rightarrow> 'v \<Rightarrow> error + 'w) \<Rightarrow> 'o callable \<Rightarrow> 'v \<Rightarrow> error + 'w" where
  "call ext (partial_fail error_message) x = fail error_message x"
| "call ext f x = ext f x"

definition proto2py ::
  "('o callable \<Rightarrow> 'v \<Rightarrow> error + 'w) \<Rightarrow> ('v \<Rightarrow> string) \<Rightarrow> 'o registry \<Rightarrow> 'v \<Rightarrow> error + 'w" where
  "proto2py ext descriptor_full_name r message =
     (case m2p (namespace r) (descriptor_full_name message) of
        None \<Rightarrow> Inl (KeyError_name (descriptor_full_name message))
      | Some f \<Rightarrow> call ext f message)"

definition py2proto ::
  "('o callable \<Rightarrow> 'v \<Rightarrow> error + 'w) \<Rightarrow> ('c \<Rightarrow> string) \<Rightarrow> 'o registry \<Rightarrow> 'c \<Rightarrow> 'v
     \<Rightarrow> error + 'w" where
  "py2proto ext descriptor_full_name r message_cls data =
     (case p2m (namespace r) (descriptor_full_name message_cls) of
        None \<Rightarrow> Inl (KeyError_name (descriptor_full_name message_cls))
      | Some f \<Rightarrow> call ext f data)"

section \<open>Reference definitions and example inputs\<close>

text \<open>
  The joining rule of \<^const>\<open>pascal2snake\<close> stated run by run, without groups: two
  neighbouring runs are joined by the empty string when both consist of one character,
  and by an underscore otherwise. This definition follows the wording of the rule, not
  the source; it is compared with \<^const>\<open>pascal2snake\<close> below.
\<close>

fun join_runs :: "string list \<Rightarrow> string" where
  "join_runs [] = []"
| "join_runs [s] = s"
| "join_runs (s # t # ts) =
     s @ (if length s = 1 \<and> length t = 1 then [] else ''_'') @ join_runs (t # ts)"

text \<open>The enum \<^verbatim>\<open>Color\<close> with the values \<^verbatim>\<open>COLOR_RED = 0\<close> and \<^verbatim>\<open>COLOR_BLUE = 1\<close>.\<close>

definition color_red :: EnumValueDescriptor where
  "color_red = \<lparr>value_name = ''COLOR_RED'', value_number = 0\<rparr>"

definition color_blue :: EnumValueDescriptor where
  "color_blue = \<lparr>value_name = ''COLOR_BLUE'', value_number = 1\<rparr>"

definition Color :: EnumDescriptor where
  "Color =
     \<lparr>enum_name = ''Color'', enum_full_name = ''tests.Color'',
      enum_values = [color_red, color_blue],
      values_by_number = [(0, color_red), (1, color_blue)],
      values_by_name = [(''COLOR_RED'', color_red), (''COLOR_BLUE'', color_blue)]\<rparr>"

text \<open>The enum \<^verbatim>\<open>Color\<close> with the values \<^verbatim>\<open>RED = 0\<close> and \<^verbatim>\<open>BLUE = 1\<close>.\<close>

definition red :: EnumValueDescriptor where
  "red = \<lparr>value_name = ''RED'', value_number = 0\<rparr>"

definition blue :: EnumValueDescriptor where
  "blue = \<lparr>value_name = ''BLUE'', value_number = 1\<rparr>"

definition Color_unprefixed :: EnumDescriptor where
  "Color_unprefixed =
     \<lparr>enum_name = ''Color'', enum_full_name = ''tests.Color'',
      enum_values = [red, blue],
      values_by_number = [(0, red), (1, blue)],
      values_by_name = [(''RED'', red), (''BLUE'', blue)]\<rparr>"

text \<open>
  The enum \<^verbatim>\<open>HttpStatus\<close> with the values \<^verbatim>\<open>HTTP_STATUS_OK = 0\<close> and
  \<^verbatim>\<open>HTTP_STATUS_NOT_FOUND = 1\<close>.
\<close>

definition http_status_ok :: EnumValueDescriptor where
  "http_status_ok = \<lparr>value_name = ''HTTP_STATUS_OK'', value_number = 0\<rparr>"

definition http_status_not_found :: EnumValueDescriptor where
  "http_status_not_found = \<lparr>value_name = ''HTTP_STATUS_NOT_FOUND'', value_number = 1\<rparr>"

definition HttpStatus :: EnumDescriptor where
  "HttpStatus =
     \<lparr>enum_name = ''HttpStatus'', enum_full_name = ''tests.HttpStatus'',
      enum_values = [http_status_ok, http_status_not_found],
      values_by_number = [(0, http_status_ok), (1, http_status_not_found)],
      values_by_name =
        [(''HTTP_STATUS_OK'', http_status_ok),
         (''HTTP_STATUS_NOT_FOUND'', http_status_not_found)]\<rparr>"

text \<open>The enum \<^verbatim>\<open>google.protobuf.NullValue\<close> of \<^verbatim>\<open>struct.proto\<close>.\<close>

definition null_value :: EnumValueDescriptor where
  "null_value = \<lparr>value_name = ''NULL_VALUE'', value_number = 0\<rparr>"

definition NullValue :: EnumDescriptor where
  "NullValue =
     \<lparr>enum_name = ''NullValue'', enum_full_name = ''google.protobuf.NullValue'',
      enum_values = [null_value],
      values_by_number = [(0, null_value)],
      values_by_name = [(''NULL_VALUE'', null_value)]\<rparr>"

text \<open>
  An instance of the module \<^verbatim>\<open>_astcast\<close> for the examples. Objects are strings: a
  compiled lambda is named by its file name, and \<^verbatim>\<open>create_lambda\<close> raises for the
  file names that \<open>fails\<close> selects. One wrapper type is registered.
\<close>

definition example_astcast :: "(string \<Rightarrow> bool) \<Rightarrow> string astcast" where
  "example_astcast fails =
     \<lparr>GOOGLE_PROTOBUF_WRAPPERS = [(''google.protobuf.Int32Value'', ''Int32Value'')],
      create_lambda =
        (\<lambda>return_ast arg_name file_name ns.
           if fails file_name then Inl (Raised (''SyntaxError in '' @ file_name))
           else Inr file_name),
      wrapper2message_ast = (\<lambda>full_name value_name constructors_regname. Inr ''ast''),
      wrap_call_ast = (\<lambda>callable_name input_ast. Inr input_ast),
      message2dict_ast = (\<lambda>message_type value_name enum_registry field_regname. Inr ''ast''),
      dict2message_ast =
        (\<lambda>message_type value_name constructors_regname field_regname. Inr ''ast''),
      field_cast_ast = (\<lambda>msg_regname enum_regname field value_name. Inr ''ast'')\<rparr>"

text \<open>
  A store of descriptors: reference 0 is the message \<^verbatim>\<open>Node { value: int32; next: Node }\<close>,
  which refers to itself; references 1 and 2 are the messages \<^verbatim>\<open>A { b: B }\<close> and
  \<^verbatim>\<open>B { a: A }\<close>, which refer to each other.
\<close>

definition example_descriptors :: "nat \<Rightarrow> string Descriptor" where
  "example_descriptors ref =
     (if ref = 0 then
        \<lparr>message_full_name = ''tests.Node'',
         message_fields =
           [\<lparr>field_full_name = ''tests.Node.value'', field_message_type = None\<rparr>,
            \<lparr>field_full_name = ''tests.Node.next'', field_message_type = Some 0\<rparr>],
         map_entry = False, concrete_class = Inr ''Node''\<rparr>
      else if ref = 1 then
        \<lparr>message_full_name = ''tests.A'',
         message_fields = [\<lparr>field_full_name = ''tests.A.b'', field_message_type = Some 2\<rparr>],
         map_entry = False, concrete_class = Inr ''A''\<rparr>
      else
        \<lparr>message_full_name = ''tests.B'',
         message_fields = [\<lparr>field_full_name = ''tests.B.a'', field_message_type = Some 1\<rparr>],
         map_entry = False, concrete_class = Inr ''B''\<rparr>)"

section \<open>Properties of pascal2snake\<close>

lemmas char_tables =
  is_upper_def upper_letters_def lower_letters_def lower_def lower_char_def
  upper_def upper_char_def

lemma join_Cons: "join sep (x # xs) = x @ (if xs = [] then [] else sep @ join sep xs)"
  by (cases xs) simp_all

lemma lower_simps: "lower [] = []" "lower (ch # s) = lower_char ch # lower s"
  by (simp_all add: lower_def)

lemma lower_append: "lower (a @ b) = lower a @ lower b"
  by (simp add: lower_def)

lemma lower_char_underscore: "lower_char CHR ''_'' = CHR ''_''"
  by (simp add: lower_char_def upper_letters_def lower_letters_def)

lemma lower_join_underscore: "join ''_'' (map lower xs) = lower (join ''_'' xs)"
proof (induction xs)
  case Nil
  show ?case by (simp add: lower_simps)
next
  case (Cons x xs)
  then show ?case
    by (simp add: join_Cons lower_append lower_simps lower_char_underscore del: join.simps)
qed

lemma groupby_eq_Nil: "groupby key xs = [] \<longleftrightarrow> xs = []"
  by (cases xs) simp_all

text \<open>The first group of \<open>x # xs\<close> and what follows it.\<close>

lemma join_runs_group:
  "join_runs (x # xs) =
     join (if length x = 1 then [] else ''_'') (x # takeWhile (\<lambda>y. length y = length x) xs)
       @ (if dropWhile (\<lambda>y. length y = length x) xs = [] then []
          else ''_'' @ join_runs (dropWhile (\<lambda>y. length y = length x) xs))"
proof (induction xs arbitrary: x)
  case Nil
  show ?case by simp
next
  case (Cons y ys)
  show ?case
  proof (cases "length y = length x")
    case True
    with Cons.IH [of y] show ?thesis by simp
  next
    case False
    then show ?thesis by auto
  qed
qed

lemma join_groups:
  "join ''_'' (map (\<lambda>(len, group). join (if len = 1 then [] else ''_'') group)
                   (groupby length xs)) = join_runs xs"
proof (induction "length :: string \<Rightarrow> nat" xs rule: groupby.induct)
  case 1
  show ?case by simp
next
  case (2 x xs)
  then show ?case
    by (simp add: join_Cons groupby_eq_Nil join_runs_group [of x xs]
             del: join.simps join_runs.simps)
qed

text \<open>
  Claim C2, as stated, fails. The claim says that single-character runs are joined with
  an underscore and multi-character runs with the empty string, so that \<^verbatim>\<open>"IDCode"\<close>
  becomes \<^verbatim>\<open>"i_d_code"\<close>. The source joins the other way round: the result for
  \<^verbatim>\<open>"IDCode"\<close> is \<^verbatim>\<open>"id_code"\<close>.
\<close>

theorem pascal2snake_IDCode_not_i_d_code: "pascal2snake ''IDCode'' \<noteq> ''i_d_code''"
  by (simp add: pascal2snake_def char_tables)

text \<open>
  Claim C2, amended: \<^verbatim>\<open>pascal2snake\<close> splits its input into maximal runs of one
  upper-case letter followed by characters that are not upper-case letters, joins two
  neighbouring runs with the empty string when both are single characters and with an
  underscore otherwise, and lower-cases the result; for \<^verbatim>\<open>"IDCode"\<close> the result is
  \<^verbatim>\<open>"id_code"\<close>.
\<close>

theorem pascal2snake_joins_runs:
  "pascal2snake name = lower (join_runs (findall_runs name))
   \<and> pascal2snake ''IDCode'' = ''id_code''"
proof
  have "map (\<lambda>(len, group). lower (join (if len = 1 then [] else ''_'') group)) gs
      = map lower (map (\<lambda>(len, group). join (if len = 1 then [] else ''_'') group) gs)"
    for gs :: "(nat \<times> string list) list"
    by (simp add: case_prod_unfold)
  then show "pascal2snake name = lower (join_runs (findall_runs name))"
    unfolding pascal2snake_def by (simp only: lower_join_underscore join_groups)
  show "pascal2snake ''IDCode'' = ''id_code''"
    by (simp add: pascal2snake_def char_tables)
qed

section \<open>Properties of create\_enum\_dict\<close>

lemma update_fresh: "k \<notin> fst ` set al \<Longrightarrow> AList.update k v al = al @ [(k, v)]"
  by (induction al) auto

lemma fold_update_distinct:
  "distinct (map fst acc @ map (\<lambda>x. fst (f x)) items) \<Longrightarrow>
   fold (\<lambda>item acc. AList.update (fst (f item)) (snd (f item)) acc) items acc
     = acc @ map f items"
proof (induction items arbitrary: acc)
  case Nil
  show ?case by simp
next
  case (Cons x xs)
  from Cons.prems have fresh: "fst (f x) \<notin> fst ` set acc" by auto
  from Cons.prems have "distinct (map fst (acc @ [f x]) @ map (\<lambda>x. fst (f x)) xs)"
    by auto
  then have "fold (\<lambda>item acc. AList.update (fst (f item)) (snd (f item)) acc) xs (acc @ [f x])
     = (acc @ [f x]) @ map f xs"
    by (rule Cons.IH)
  with fresh show ?case by (simp add: update_fresh)
qed

text \<open>A comprehension whose keys are distinct yields its pairs in order.\<close>

lemma dict_comprehension_distinct:
  "distinct (map (\<lambda>x. fst (f x)) items) \<Longrightarrow> dict_comprehension f items = map f items"
  unfolding dict_comprehension_def using fold_update_distinct [of "[]" f items] by simp

lemma drop_inj_on_prefixed:
  "startswith a p \<Longrightarrow> startswith b p \<Longrightarrow> drop (length p) a = drop (length p) b \<Longrightarrow> a = b"
  unfolding startswith_def by (metis append_take_drop_id)

lemma int2str_pairs:
  assumes d: "distinct (map fst (values_by_number e))"
  shows "enum_pairs e ''int2str'' th =
     Inr (map (\<lambda>(number, v). (PyInt number, PyStr (drop th (value_name v))))
              (values_by_number e))"
proof -
  let ?f = "\<lambda>(number, v). (PyInt number, PyStr (drop th (value_name v)))"
  have "map (\<lambda>x. fst (?f x)) (values_by_number e) = map PyInt (map fst (values_by_number e))"
    by (simp add: case_prod_unfold)
  moreover have "distinct (map PyInt (map fst (values_by_number e)))"
    using d by (simp only: distinct_map) (simp add: inj_on_def)
  ultimately have "distinct (map (\<lambda>x. fst (?f x)) (values_by_number e))"
    by (simp only:)
  then have "dict_comprehension ?f (values_by_number e) = map ?f (values_by_number e)"
    by (rule dict_comprehension_distinct)
  then show ?thesis
    by (simp add: enum_pairs_def)
qed

lemma str2int_pairs:
  assumes d: "distinct (map fst (values_by_name e))"
    and i: "\<And>a b. a \<in> fst ` set (values_by_name e) \<Longrightarrow> b \<in> fst ` set (values_by_name e) \<Longrightarrow>
              drop th a = drop th b \<Longrightarrow> a = b"
  shows "enum_pairs e ''str2int'' th =
     Inr (map (\<lambda>(name, v). (PyStr (drop th name), PyInt (value_number v)))
              (values_by_name e))"
proof -
  let ?f = "\<lambda>(name, v). (PyStr (drop th name), PyInt (value_number v))"
  have "map (\<lambda>x. fst (?f x)) (values_by_name e)
          = map (\<lambda>k. PyStr (drop th k)) (map fst (values_by_name e))"
    by (simp add: case_prod_unfold)
  moreover have "distinct (map (\<lambda>k. PyStr (drop th k)) (map fst (values_by_name e)))"
    using d i by (simp only: distinct_map) (auto simp add: inj_on_def)
  ultimately have "distinct (map (\<lambda>x. fst (?f x)) (values_by_name e))"
    by (simp only:)
  then have "dict_comprehension ?f (values_by_name e) = map ?f (values_by_name e)"
    by (rule dict_comprehension_distinct)
  then show ?thesis
    by (simp add: enum_pairs_def)
qed

lemma pascal2snake_runs: "pascal2snake name = lower (join_runs (findall_runs name))"
proof -
  have "map (\<lambda>(len, group). lower (join (if len = 1 then [] else ''_'') group)) gs
      = map lower (map (\<lambda>(len, group). join (if len = 1 then [] else ''_'') group) gs)"
    for gs :: "(nat \<times> string list) list"
    by (simp add: case_prod_unfold)
  then show ?thesis
    unfolding pascal2snake_def by (simp only: lower_join_underscore join_groups)
qed

lemma upper_char_lower_char: "upper_char (lower_char ch) = upper_char ch"
  by (simp add: upper_char_def lower_char_def upper_letters_def lower_letters_def)

lemma upper_lower: "upper (lower s) = upper s"
  by (simp add: upper_def lower_def upper_char_lower_char)

lemma HttpStatus_prefix: "derived_prefix HttpStatus = ''HTTP_STATUS_''"
  by (simp add: derived_prefix_def HttpStatus_def pascal2snake_def char_tables)

lemma Color_prefix: "derived_prefix Color = ''COLOR_''"
  by (simp add: derived_prefix_def Color_def pascal2snake_def char_tables)

lemma Color_unprefixed_prefix: "derived_prefix Color_unprefixed = ''COLOR_''"
  by (simp add: derived_prefix_def Color_unprefixed_def pascal2snake_def char_tables)

text \<open>
  Claim C5: with an explicit prefix that one of the value names does not start with,
  \<^verbatim>\<open>create_enum_dict\<close> raises the \<^verbatim>\<open>ValueError\<close> that says the prefix is not common
  for all values, and it issues no warning before; this holds for every mode, the two
  known ones and any other string.
\<close>

theorem create_enum_dict_explicit_prefix_mismatch:
  assumes "v \<in> set (enum_values enum_type)"
    and "\<not> startswith (value_name v) prefix"
  shows "create_enum_dict enum_type mode (Some prefix)
           = ([], Inl (ValueError (Prefix_not_common prefix)))"
proof -
  from assms have "\<not> list_all (\<lambda>v. startswith (value_name v) prefix) (enum_values enum_type)"
    by (auto simp: list_all_iff)
  then show ?thesis by (simp add: create_enum_dict_def)
qed

text \<open>
  The values \<^verbatim>\<open>RED\<close> and \<^verbatim>\<open>BLUE\<close> with the explicit prefix \<^verbatim>\<open>"X_"\<close>, in a mode
  that does not exist.
\<close>

theorem create_enum_dict_explicit_prefix_mismatch_witness:
  "red \<in> set (enum_values Color_unprefixed)
   \<and> \<not> startswith (value_name red) ''X_''
   \<and> create_enum_dict Color_unprefixed ''neither'' (Some ''X_'')
       = ([], Inl (ValueError (Prefix_not_common ''X_'')))"
proof -
  have m: "red \<in> set (enum_values Color_unprefixed)"
    by (simp add: Color_unprefixed_def)
  have n: "\<not> startswith (value_name red) ''X_''"
    by (simp add: red_def startswith_def)
  from m n create_enum_dict_explicit_prefix_mismatch [OF m n, of "''neither''"]
  show ?thesis by simp
qed

text \<open>
  Claim C6: without an explicit prefix, when one of the value names does not start with
  the derived prefix, \<^verbatim>\<open>create_enum_dict\<close> issues the warning and returns, for
  \<^verbatim>\<open>"int2str"\<close>, the dictionary that maps each number of \<^verbatim>\<open>values_by_number\<close> to the
  whole name of its value and, for \<^verbatim>\<open>"str2int"\<close>, the dictionary that maps each whole
  name of \<^verbatim>\<open>values_by_name\<close> to the number of its value. The keys of a descriptor's
  dictionaries are distinct.
\<close>

theorem create_enum_dict_derived_prefix_mismatch:
  assumes "v \<in> set (enum_values enum_type)"
    and "\<not> startswith (value_name v) (derived_prefix enum_type)"
    and "distinct (map fst (values_by_number enum_type))"
    and "distinct (map fst (values_by_name enum_type))"
  shows "create_enum_dict enum_type ''int2str'' None =
           ([DynaGrpcWarning (''Missing values prefix in enum '' @ enum_full_name enum_type)],
            Inr (map (\<lambda>(number, v). (PyInt number, PyStr (value_name v)))
                     (values_by_number enum_type)))
       \<and> create_enum_dict enum_type ''str2int'' None =
           ([DynaGrpcWarning (''Missing values prefix in enum '' @ enum_full_name enum_type)],
            Inr (map (\<lambda>(name, v). (PyStr name, PyInt (value_number v)))
                     (values_by_name enum_type)))"
proof -
  from assms(1,2)
  have n: "\<not> list_all (\<lambda>v. startswith (value_name v) (derived_prefix enum_type))
               (enum_values enum_type)"
    by (auto simp: list_all_iff)
  have a: "enum_pairs enum_type ''int2str'' 0 =
     Inr (map (\<lambda>(number, v). (PyInt number, PyStr (value_name v))) (values_by_number enum_type))"
    using int2str_pairs [OF assms(3), of 0] by simp
  have b: "enum_pairs enum_type ''str2int'' 0 =
     Inr (map (\<lambda>(name, v). (PyStr name, PyInt (value_number v))) (values_by_name enum_type))"
    using str2int_pairs [OF assms(4), of 0] by simp
  from n a b show ?thesis by (simp add: create_enum_dict_def)
qed

text \<open>The enum \<^verbatim>\<open>Color\<close> with the values \<^verbatim>\<open>RED\<close> and \<^verbatim>\<open>BLUE\<close>.\<close>

theorem create_enum_dict_derived_prefix_mismatch_witness:
  "create_enum_dict Color_unprefixed ''int2str'' None =
     ([DynaGrpcWarning ''Missing values prefix in enum tests.Color''],
      Inr [(PyInt 0, PyStr ''RED''), (PyInt 1, PyStr ''BLUE'')])
   \<and> create_enum_dict Color_unprefixed ''str2int'' None =
     ([DynaGrpcWarning ''Missing values prefix in enum tests.Color''],
      Inr [(PyStr ''RED'', PyInt 0), (PyStr ''BLUE'', PyInt 1)])"
proof -
  have m: "red \<in> set (enum_values Color_unprefixed)"
    by (simp add: Color_unprefixed_def)
  have n: "\<not> startswith (value_name red) (derived_prefix Color_unprefixed)"
    by (simp add: Color_unprefixed_prefix) (simp add: red_def startswith_def)
  have d1: "distinct (map fst (values_by_number Color_unprefixed))"
    by (simp add: Color_unprefixed_def)
  have d2: "distinct (map fst (values_by_name Color_unprefixed))"
    by (simp add: Color_unprefixed_def)
  from create_enum_dict_derived_prefix_mismatch [OF m n d1 d2] show ?thesis
    by (simp add: Color_unprefixed_def red_def blue_def)
qed

text \<open>
  Claim C7: without an explicit prefix the prefix is the snake-case form of the enum's
  name in upper case, followed by an underscore: the name is split into its runs (an
  upper-case letter with the characters after it that are not upper-case letters), the
  runs are joined with underscores (two neighbouring runs of one character each with
  nothing), and the result is put in upper case. When every value name starts with this
  prefix, \<^verbatim>\<open>create_enum_dict\<close> issues no warning and returns, for \<^verbatim>\<open>"int2str"\<close>,
  the dictionary that maps each number to the name of its value without the prefix and,
  for \<^verbatim>\<open>"str2int"\<close>, the dictionary that maps each name without the prefix to the
  number of its value.
\<close>

theorem create_enum_dict_strips_derived_prefix:
  assumes ok: "enum_descriptor_ok enum_type"
    and all: "list_all (\<lambda>v. startswith (value_name v) (derived_prefix enum_type))
               (enum_values enum_type)"
  shows "derived_prefix enum_type
           = upper (join_runs (findall_runs (enum_name enum_type))) @ ''_''
       \<and> create_enum_dict enum_type ''int2str'' None =
           ([], Inr (map (\<lambda>(number, v).
                            (PyInt number,
                             PyStr (drop (length (derived_prefix enum_type)) (value_name v))))
                         (values_by_number enum_type)))
       \<and> create_enum_dict enum_type ''str2int'' None =
           ([], Inr (map (\<lambda>(name, v).
                            (PyStr (drop (length (derived_prefix enum_type)) name),
                             PyInt (value_number v)))
                         (values_by_name enum_type)))"
proof -
  let ?p = "derived_prefix enum_type"
  from ok have dn: "distinct (map fst (values_by_number enum_type))"
    and ds: "distinct (map fst (values_by_name enum_type))"
    and keys: "\<And>k. k \<in> fst ` set (values_by_name enum_type) \<Longrightarrow>
                 k \<in> value_name ` set (enum_values enum_type)"
    by (auto simp: enum_descriptor_ok_def list_all_iff)
  have pre: "startswith k ?p" if "k \<in> fst ` set (values_by_name enum_type)" for k
    using keys [OF that] all by (auto simp: list_all_iff)
  have inj: "a = b" if "a \<in> fst ` set (values_by_name enum_type)"
    "b \<in> fst ` set (values_by_name enum_type)" "drop (length ?p) a = drop (length ?p) b" for a b
    using pre [OF that(1)] pre [OF that(2)] that(3) by (rule drop_inj_on_prefixed)
  have a: "enum_pairs enum_type ''int2str'' (length ?p) =
     Inr (map (\<lambda>(number, v). (PyInt number, PyStr (drop (length ?p) (value_name v))))
              (values_by_number enum_type))"
    by (rule int2str_pairs [OF dn])
  have b: "enum_pairs enum_type ''str2int'' (length ?p) =
     Inr (map (\<lambda>(name, v). (PyStr (drop (length ?p) name), PyInt (value_number v)))
              (values_by_name enum_type))"
    by (rule str2int_pairs [OF ds inj])
  have p: "?p = upper (join_runs (findall_runs (enum_name enum_type))) @ ''_''"
    unfolding derived_prefix_def by (simp only: pascal2snake_runs upper_lower)
  from all a b have
    "create_enum_dict enum_type ''int2str'' None =
       ([], Inr (map (\<lambda>(number, v). (PyInt number, PyStr (drop (length ?p) (value_name v))))
                     (values_by_number enum_type)))
     \<and> create_enum_dict enum_type ''str2int'' None =
       ([], Inr (map (\<lambda>(name, v). (PyStr (drop (length ?p) name), PyInt (value_number v)))
                     (values_by_name enum_type)))"
    by (simp add: create_enum_dict_def)
  with p show ?thesis by (intro conjI) blast+
qed

text \<open>
  The enum \<^verbatim>\<open>Color\<close> with the values \<^verbatim>\<open>COLOR_RED = 0\<close> and \<^verbatim>\<open>COLOR_BLUE = 1\<close>, and
  the enum \<^verbatim>\<open>HttpStatus\<close>, whose name has two runs, with the values
  \<^verbatim>\<open>HTTP_STATUS_OK = 0\<close> and \<^verbatim>\<open>HTTP_STATUS_NOT_FOUND = 1\<close>.
\<close>

theorem create_enum_dict_strips_derived_prefix_witness:
  "derived_prefix Color = ''COLOR_''
   \<and> create_enum_dict Color ''int2str'' None =
       ([], Inr [(PyInt 0, PyStr ''RED''), (PyInt 1, PyStr ''BLUE'')])
   \<and> create_enum_dict Color ''str2int'' None =
       ([], Inr [(PyStr ''RED'', PyInt 0), (PyStr ''BLUE'', PyInt 1)])
   \<and> findall_runs ''HttpStatus'' = [''Http'', ''Status'']
   \<and> derived_prefix HttpStatus = ''HTTP_STATUS_''
   \<and> create_enum_dict HttpStatus ''int2str'' None =
       ([], Inr [(PyInt 0, PyStr ''OK''), (PyInt 1, PyStr ''NOT_FOUND'')])
   \<and> create_enum_dict HttpStatus ''str2int'' None =
       ([], Inr [(PyStr ''OK'', PyInt 0), (PyStr ''NOT_FOUND'', PyInt 1)])"
proof -
  have ok: "enum_descriptor_ok Color"
    by (simp add: enum_descriptor_ok_def Color_def color_red_def color_blue_def)
  have all: "list_all (\<lambda>v. startswith (value_name v) (derived_prefix Color)) (enum_values Color)"
    by (simp add: Color_prefix) (simp add: Color_def color_red_def color_blue_def startswith_def)
  note color = create_enum_dict_strips_derived_prefix [OF ok all]
  have runs_color: "upper (join_runs (findall_runs (enum_name Color))) @ ''_'' = ''COLOR_''"
    by (simp add: Color_def char_tables)
  from color have c: "derived_prefix Color = ''COLOR_''
   \<and> create_enum_dict Color ''int2str'' None =
       ([], Inr [(PyInt 0, PyStr ''RED''), (PyInt 1, PyStr ''BLUE'')])
   \<and> create_enum_dict Color ''str2int'' None =
       ([], Inr [(PyStr ''RED'', PyInt 0), (PyStr ''BLUE'', PyInt 1)])"
    by (simp add: runs_color) (simp add: Color_def color_red_def color_blue_def)
  have ok': "enum_descriptor_ok HttpStatus"
    by (simp add: enum_descriptor_ok_def HttpStatus_def http_status_ok_def
        http_status_not_found_def)
  have all': "list_all (\<lambda>v. startswith (value_name v) (derived_prefix HttpStatus))
                (enum_values HttpStatus)"
    by (simp add: HttpStatus_prefix)
       (simp add: HttpStatus_def http_status_ok_def http_status_not_found_def startswith_def)
  note http = create_enum_dict_strips_derived_prefix [OF ok' all']
  have runs: "findall_runs ''HttpStatus'' = [''Http'', ''Status'']"
    by (simp add: char_tables)
  have runs_http:
    "upper (join_runs (findall_runs (enum_name HttpStatus))) @ ''_'' = ''HTTP_STATUS_''"
    by (simp add: HttpStatus_def char_tables)
  from http have h: "derived_prefix HttpStatus = ''HTTP_STATUS_''
   \<and> create_enum_dict HttpStatus ''int2str'' None =
       ([], Inr [(PyInt 0, PyStr ''OK''), (PyInt 1, PyStr ''NOT_FOUND'')])
   \<and> create_enum_dict HttpStatus ''str2int'' None =
       ([], Inr [(PyStr ''OK'', PyInt 0), (PyStr ''NOT_FOUND'', PyInt 1)])"
    by (simp add: runs_http)
       (simp add: HttpStatus_def http_status_ok_def http_status_not_found_def)
  from c runs h show ?thesis by blast
qed

section \<open>Properties of registration\<close>

text \<open>
  What a registration call leaves behind, for \<^const>\<open>register_message_type\<close> and the two
  functions it is defined with: the set of descriptors in progress is restored (up to
  the descriptor of the call itself), and no entry of \<^verbatim>\<open>m2p\<close> is removed or
  replaced. The properties of \<^const>\<open>register_message_type\<close> at one depth carry over to
  the loop over the fields at that depth, and from there to the next depth.
\<close>

lemmas setters = set_m2p_def set_p2m_def set_f2p_def set_p2f_def set_i2s_def set_s2i_def set_c_def

lemma register_field_lambdas_post:
  "register_field_lambdas A field r = (r', e) \<Longrightarrow>
     registering r' = registering r \<and> m2p (namespace r') = m2p (namespace r)"
  by (auto simp: register_field_lambdas_def setters Let_def split: sum.splits)

lemma register_field_type_post:
  assumes IH: "\<forall>mt r r' e. register_message_type A D depth mt r = Some (r', e) \<longrightarrow>
      registering r' = (if m2p (namespace r) (message_full_name (D mt)) \<noteq> None
                        then registering r else registering r - {mt})
      \<and> (\<forall>k v. m2p (namespace r) k = Some v \<longrightarrow> m2p (namespace r') k = Some v)"
    and res: "register_field_type A D depth field r = Some (r', e)"
  shows "registering r' = registering r
      \<and> (\<forall>k v. m2p (namespace r) k = Some v \<longrightarrow> m2p (namespace r') k = Some v)"
proof -
  obtain r1 e1 where first:
    "(case field_message_type field of
        None \<Rightarrow> Some (r, None)
      | Some mt \<Rightarrow>
          if \<not> (map_entry (D mt) \<or> mt \<in> registering r)
          then register_message_type A D depth mt r
          else Some (r, None)) = Some (r1, e1)"
    using res by (auto split: option.splits)
  have r1: "registering r1 = registering r
      \<and> (\<forall>k v. m2p (namespace r) k = Some v \<longrightarrow> m2p (namespace r1) k = Some v)"
  proof (cases "field_message_type field")
    case None
    with first show ?thesis by simp
  next
    case (Some mt)
    show ?thesis
    proof (cases "\<not> (map_entry (D mt) \<or> mt \<in> registering r)")
      case True
      with first Some have call: "register_message_type A D depth mt r = Some (r1, e1)"
        by simp
      from IH [rule_format, OF call] True show ?thesis by auto
    next
      case False
      with first Some show ?thesis by auto
    qed
  qed
  show ?thesis
  proof (cases e1)
    case None
    with res first have "register_field_lambdas A field r1 = (r', e)" by simp
    from register_field_lambdas_post [OF this] r1 show ?thesis by simp
  next
    case (Some err)
    with res first have "r' = r1" by simp
    with r1 show ?thesis by simp
  qed
qed

lemma register_fields_post:
  assumes IH: "\<forall>mt r r' e. register_message_type A D depth mt r = Some (r', e) \<longrightarrow>
      registering r' = (if m2p (namespace r) (message_full_name (D mt)) \<noteq> None
                        then registering r else registering r - {mt})
      \<and> (\<forall>k v. m2p (namespace r) k = Some v \<longrightarrow> m2p (namespace r') k = Some v)"
  shows "register_fields A D depth fs r = Some (r', e) \<Longrightarrow>
     registering r' = registering r
      \<and> (\<forall>k v. m2p (namespace r) k = Some v \<longrightarrow> m2p (namespace r') k = Some v)"
proof (induction fs arbitrary: r)
  case Nil
  then show ?case by simp
next
  case (Cons f fs)
  from Cons.prems obtain r1 e1 where f: "register_field_type A D depth f r = Some (r1, e1)"
    by (auto split: option.splits)
  note p1 = register_field_type_post [OF IH f]
  show ?case
  proof (cases e1)
    case None
    with Cons.prems f have "register_fields A D depth fs r1 = Some (r', e)" by simp
    from Cons.IH [OF this] p1 show ?thesis by simp
  next
    case (Some err)
    with Cons.prems f have "r' = r1" by simp
    with p1 show ?thesis by simp
  qed
qed

lemma register_message_type_post:
  "register_message_type A D depth mt r = Some (r', e) \<Longrightarrow>
      registering r' = (if m2p (namespace r) (message_full_name (D mt)) \<noteq> None
                        then registering r else registering r - {mt})
      \<and> (\<forall>k v. m2p (namespace r) k = Some v \<longrightarrow> m2p (namespace r') k = Some v)"
proof (induction depth arbitrary: mt r r' e)
  case 0
  then show ?case by simp
next
  case (Suc depth)
  from Suc.IH have IH: "\<forall>mt r r' e. register_message_type A D depth mt r = Some (r', e) \<longrightarrow>
      registering r' = (if m2p (namespace r) (message_full_name (D mt)) \<noteq> None
                        then registering r else registering r - {mt})
      \<and> (\<forall>k v. m2p (namespace r) k = Some v \<longrightarrow> m2p (namespace r') k = Some v)"
    by blast
  note fields = register_fields_post [OF IH]
  show ?case
  proof (cases "m2p (namespace r) (message_full_name (D mt)) \<noteq> None")
    case True
    with Suc.prems show ?thesis by simp
  next
    case False
    then have none: "m2p (namespace r) (message_full_name (D mt)) = None" by simp
    let ?fn = "message_full_name (D mt)"
    let ?r1 = "r\<lparr>registering := insert mt (registering r)\<rparr>"
    from Suc.prems none obtain rb eb where
      fin: "finally_remove mt (rb, eb) = (r', e)" and
      body: "(case m2p_lambda A mt ?fn (namespace ?r1) of
             Inl e \<Rightarrow> Some (?r1, Some e)
           | Inr f \<Rightarrow>
               let r2 = set_m2p ?fn (compiled f) ?r1 in
               (case p2m_lambda A mt ?fn (namespace r2) of
                  Inl e \<Rightarrow> Some (r2, Some e)
                | Inr g \<Rightarrow>
                    let r3 = set_p2m ?fn (compiled g) r2 in
                    (case register_fields A D depth (message_fields (D mt)) r3 of
                       None \<Rightarrow> None
                     | Some (r4, Some e) \<Rightarrow> Some (r4, Some e)
                     | Some (r4, None) \<Rightarrow>
                         (case concrete_class (D mt) of
                            Inl e \<Rightarrow> Some (r4, Some e)
                          | Inr cls \<Rightarrow> Some (set_c ?fn cls r4, None))))) = Some (rb, eb)"
      by (auto simp: Let_def)
    have rb: "registering rb = insert mt (registering r)
        \<and> (\<forall>k v. m2p (namespace r) k = Some v \<longrightarrow> m2p (namespace rb) k = Some v)"
    proof (cases "m2p_lambda A mt ?fn (namespace ?r1)")
      case (Inl err)
      with body show ?thesis by auto
    next
      case f: (Inr f)
      let ?r2 = "set_m2p ?fn (compiled f) ?r1"
      show ?thesis
      proof (cases "p2m_lambda A mt ?fn (namespace ?r2)")
        case (Inl err)
        with body f none show ?thesis by (auto simp: setters)
      next
        case g: (Inr g)
        let ?r3 = "set_p2m ?fn (compiled g) ?r2"
        from body f g obtain r4 e4 where
          fs: "register_fields A D depth (message_fields (D mt)) ?r3 = Some (r4, e4)"
          by (auto simp: Let_def split: option.splits)
        note p4 = fields [OF fs]
        have keep: "m2p (namespace r4) k = Some v" if "m2p (namespace r) k = Some v" for k v
        proof -
          from that none have "k \<noteq> ?fn" by auto
          with that have "m2p (namespace ?r3) k = Some v" by (simp add: setters)
          with p4 show ?thesis by blast
        qed
        from p4 have "registering r4 = insert mt (registering r)"
          by (simp add: setters)
        with keep have r4: "registering r4 = insert mt (registering r)
          \<and> (\<forall>k v. m2p (namespace r) k = Some v \<longrightarrow> m2p (namespace r4) k = Some v)"
          by blast
        from body f g fs r4 show ?thesis
          by (auto simp: Let_def setters split: option.splits sum.splits)
      qed
    qed
    from fin rb none show ?thesis
      by (auto simp: finally_remove_def)
  qed
qed


lemma register_message_type_registered:
  assumes "register_message_type A D depth mt r = Some (r', None)"
  shows "m2p (namespace r') (message_full_name (D mt)) \<noteq> None"
proof (cases "m2p (namespace r) (message_full_name (D mt)) \<noteq> None")
  case True
  with register_message_type_post [OF assms] show ?thesis by auto
next
  case False
  from assms obtain d where depth: "depth = Suc d" by (cases depth) auto
  let ?fn = "message_full_name (D mt)"
  let ?r1 = "r\<lparr>registering := insert mt (registering r)\<rparr>"
  from assms False depth obtain f g r4 e4 where
    f: "m2p_lambda A mt ?fn (namespace ?r1) = Inr f" and
    fs: "register_fields A D d (message_fields (D mt))
           (set_p2m ?fn (compiled g) (set_m2p ?fn (compiled f) ?r1)) = Some (r4, e4)" and
    r': "m2p (namespace r') = m2p (namespace r4)"
    by (auto simp: Let_def finally_remove_def setters
             split: sum.splits option.splits if_splits)
  have "\<forall>mt r r' e. register_message_type A D d mt r = Some (r', e) \<longrightarrow>
      registering r' = (if m2p (namespace r) (message_full_name (D mt)) \<noteq> None
                        then registering r else registering r - {mt})
      \<and> (\<forall>k v. m2p (namespace r) k = Some v \<longrightarrow> m2p (namespace r') k = Some v)"
    using register_message_type_post by blast
  from register_fields_post [OF this fs]
  have "m2p (namespace r4) ?fn = Some (compiled f)" by (simp add: setters)
  with r' show ?thesis by simp
qed

lemma card_unregistered_mono:
  assumes fin: "finite M"
    and keep: "\<forall>k v. m2p (namespace r) k = Some v \<longrightarrow> m2p (namespace r') k = Some v"
  shows "card ((\<lambda>m. message_full_name (D m)) ` M - dom (m2p (namespace r')))
       \<le> card ((\<lambda>m. message_full_name (D m)) ` M - dom (m2p (namespace r)))"
proof (rule card_mono)
  from fin show "finite ((\<lambda>m. message_full_name (D m)) ` M - dom (m2p (namespace r)))"
    by simp
  from keep show "(\<lambda>m. message_full_name (D m)) ` M - dom (m2p (namespace r'))
      \<subseteq> (\<lambda>m. message_full_name (D m)) ` M - dom (m2p (namespace r))"
    by auto
qed

lemma register_fields_returns:
  assumes IH: "\<forall>mt r. mt \<in> M \<longrightarrow>
      card ((\<lambda>m. message_full_name (D m)) ` M - dom (m2p (namespace r))) < depth \<longrightarrow>
      (\<exists>res. register_message_type A D depth mt r = Some res)"
    and fin: "finite M"
  shows "\<forall>f\<in>set fs. \<forall>m. field_message_type f = Some m \<longrightarrow> m \<in> M \<Longrightarrow>
     card ((\<lambda>m. message_full_name (D m)) ` M - dom (m2p (namespace r))) < depth \<Longrightarrow>
     \<exists>res. register_fields A D depth fs r = Some res"
proof (induction fs arbitrary: r)
  case Nil
  show ?case by simp
next
  case (Cons f fs)
  have post: "\<forall>mt r r' e. register_message_type A D depth mt r = Some (r', e) \<longrightarrow>
      registering r' = (if m2p (namespace r) (message_full_name (D mt)) \<noteq> None
                        then registering r else registering r - {mt})
      \<and> (\<forall>k v. m2p (namespace r) k = Some v \<longrightarrow> m2p (namespace r') k = Some v)"
    using register_message_type_post by blast
  have "\<exists>res. register_field_type A D depth f r = Some res"
  proof (cases "field_message_type f")
    case None
    then show ?thesis by (auto split: option.splits)
  next
    case (Some m)
    with Cons.prems(1) have "m \<in> M" by simp
    with IH Cons.prems(2) obtain res where "register_message_type A D depth m r = Some res"
      by blast
    with Some show ?thesis by (cases res) (auto split: option.splits)
  qed
  then obtain r1 e1 where f: "register_field_type A D depth f r = Some (r1, e1)"
    by auto
  show ?case
  proof (cases e1)
    case None
    from register_field_type_post [OF post f]
    have "\<forall>k v. m2p (namespace r) k = Some v \<longrightarrow> m2p (namespace r1) k = Some v" by simp
    from card_unregistered_mono [OF fin this, of D] Cons.prems(2)
    have "card ((\<lambda>m. message_full_name (D m)) ` M - dom (m2p (namespace r1))) < depth"
      by simp
    with Cons.IH [of r1] Cons.prems(1) obtain res where
      "register_fields A D depth fs r1 = Some res" by auto
    with f None show ?thesis by simp
  next
    case (Some err)
    with f show ?thesis by simp
  qed
qed

lemma register_message_type_returns:
  assumes fin: "finite M"
    and closed: "\<forall>m\<in>M. \<forall>f\<in>set (message_fields (D m)). \<forall>m'.
                   field_message_type f = Some m' \<longrightarrow> m' \<in> M"
  shows "mt \<in> M \<Longrightarrow>
     card ((\<lambda>m. message_full_name (D m)) ` M - dom (m2p (namespace r))) < depth \<Longrightarrow>
     \<exists>res. register_message_type A D depth mt r = Some res"
proof (induction depth arbitrary: mt r)
  case 0
  then show ?case by simp
next
  case (Suc depth)
  let ?N = "\<lambda>r. (\<lambda>m. message_full_name (D m)) ` M - dom (m2p (namespace r))"
  let ?fn = "message_full_name (D mt)"
  let ?r1 = "r\<lparr>registering := insert mt (registering r)\<rparr>"
  from Suc.IH have IH: "\<forall>mt r. mt \<in> M \<longrightarrow> card (?N r) < depth \<longrightarrow>
      (\<exists>res. register_message_type A D depth mt r = Some res)"
    by blast
  show ?case
  proof (cases "m2p (namespace r) ?fn \<noteq> None")
    case True
    then show ?thesis by simp
  next
    case False
    then have none: "m2p (namespace r) ?fn = None" by simp
    show ?thesis
    proof (cases "m2p_lambda A mt ?fn (namespace ?r1)")
      case (Inl err)
      with none show ?thesis by simp
    next
      case f: (Inr f)
      let ?r2 = "set_m2p ?fn (compiled f) ?r1"
      show ?thesis
      proof (cases "p2m_lambda A mt ?fn (namespace ?r2)")
        case (Inl err)
        with none f show ?thesis by simp
      next
        case g: (Inr g)
        let ?r3 = "set_p2m ?fn (compiled g) ?r2"
        from Suc.prems(1) none have mem: "?fn \<in> ?N r" by auto
        have eq: "?N ?r3 = ?N r - {?fn}" by (auto simp: setters)
        from fin have finN: "finite (?N r)" by simp
        from finN mem have "card (?N r - {?fn}) < card (?N r)"
          by (rule card_Diff1_less)
        then have "card (?N ?r3) < card (?N r)" by (simp only: eq)
        with Suc.prems(2) have small: "card (?N ?r3) < depth" by simp
        from closed Suc.prems(1) have refs:
          "\<forall>f\<in>set (message_fields (D mt)). \<forall>m. field_message_type f = Some m \<longrightarrow> m \<in> M"
          by blast
        from register_fields_returns [OF IH fin refs small]
        obtain res where "register_fields A D depth (message_fields (D mt)) ?r3 = Some res"
          by blast
        with none f g show ?thesis
          by (cases res) (auto simp: Let_def split: option.splits sum.splits)
      qed
    qed
  qed
qed

section \<open>The messages a call tree compiles\<close>

text \<open>
  For a call that returns, the full names of the compiled messages are distinct, none of
  them had an entry in \<^verbatim>\<open>m2p\<close> before the call, and after a normal return each of them
  has one. As above, the property of \<^const>\<open>register_message_type\<close> at one depth carries
  over to the loop over the fields at that depth, and from there to the next depth.
\<close>

lemma register_message_type_keeps:
  "\<forall>mt r r' e. register_message_type A D depth mt r = Some (r', e) \<longrightarrow>
      registering r' = (if m2p (namespace r) (message_full_name (D mt)) \<noteq> None
                        then registering r else registering r - {mt})
      \<and> (\<forall>k v. m2p (namespace r) k = Some v \<longrightarrow> m2p (namespace r') k = Some v)"
  using register_message_type_post by blast

lemma register_field_type_compiles_once:
  assumes IH: "\<forall>mt r r' e. register_message_type A D depth mt r = Some (r', e) \<longrightarrow>
      distinct (map (\<lambda>m. message_full_name (D m)) (register_message_type_compiles A D depth mt r))
      \<and> (\<forall>m\<in>set (register_message_type_compiles A D depth mt r).
            m2p (namespace r) (message_full_name (D m)) = None)
      \<and> (e = None \<longrightarrow> (\<forall>m\<in>set (register_message_type_compiles A D depth mt r).
            m2p (namespace r') (message_full_name (D m)) \<noteq> None))"
    and res: "register_field_type A D depth field r = Some (r', e)"
  shows "distinct (map (\<lambda>m. message_full_name (D m)) (register_field_type_compiles A D depth field r))
      \<and> (\<forall>m\<in>set (register_field_type_compiles A D depth field r).
            m2p (namespace r) (message_full_name (D m)) = None)
      \<and> (e = None \<longrightarrow> (\<forall>m\<in>set (register_field_type_compiles A D depth field r).
            m2p (namespace r') (message_full_name (D m)) \<noteq> None))"
proof (cases "field_message_type field")
  case None
  then show ?thesis by simp
next
  case (Some mt)
  show ?thesis
  proof (cases "\<not> (map_entry (D mt) \<or> mt \<in> registering r)")
    case False
    with Some show ?thesis by auto
  next
    case True
    with Some have log: "register_field_type_compiles A D depth field r
        = register_message_type_compiles A D depth mt r"
      by simp
    from res Some True obtain r1 e1 where
      call: "register_message_type A D depth mt r = Some (r1, e1)"
      by (auto split: option.splits)
    note p = IH [rule_format, OF call]
    have "e = None \<longrightarrow> e1 = None \<and> m2p (namespace r') = m2p (namespace r1)"
    proof (cases e1)
      case None
      with res Some True call have "register_field_lambdas A field r1 = (r', e)" by simp
      from register_field_lambdas_post [OF this] None show ?thesis by simp
    next
      case (Some err)
      with res \<open>field_message_type field = Some mt\<close> True call show ?thesis by simp
    qed
    with p show ?thesis unfolding log by auto
  qed
qed

lemma register_fields_compiles_once:
  assumes IH: "\<forall>mt r r' e. register_message_type A D depth mt r = Some (r', e) \<longrightarrow>
      distinct (map (\<lambda>m. message_full_name (D m)) (register_message_type_compiles A D depth mt r))
      \<and> (\<forall>m\<in>set (register_message_type_compiles A D depth mt r).
            m2p (namespace r) (message_full_name (D m)) = None)
      \<and> (e = None \<longrightarrow> (\<forall>m\<in>set (register_message_type_compiles A D depth mt r).
            m2p (namespace r') (message_full_name (D m)) \<noteq> None))"
  shows "register_fields A D depth fs r = Some (r', e) \<Longrightarrow>
     distinct (map (\<lambda>m. message_full_name (D m)) (register_fields_compiles A D depth fs r))
      \<and> (\<forall>m\<in>set (register_fields_compiles A D depth fs r).
            m2p (namespace r) (message_full_name (D m)) = None)
      \<and> (e = None \<longrightarrow> (\<forall>m\<in>set (register_fields_compiles A D depth fs r).
            m2p (namespace r') (message_full_name (D m)) \<noteq> None))"
proof (induction fs arbitrary: r)
  case Nil
  then show ?case by simp
next
  case (Cons f fs)
  let ?name = "\<lambda>m. message_full_name (D m)"
  let ?first = "register_field_type_compiles A D depth f r"
  from Cons.prems obtain r1 e1 where f: "register_field_type A D depth f r = Some (r1, e1)"
    by (auto split: option.splits)
  note p1 = register_field_type_compiles_once [OF IH f]
  note k1 = register_field_type_post [OF register_message_type_keeps f]
  show ?case
  proof (cases e1)
    case (Some err)
    with f have log: "register_fields_compiles A D depth (f # fs) r = ?first" by simp
    from Some Cons.prems f have "e = Some err" by auto
    with p1 show ?thesis unfolding log
      by (simp del: register_field_type_compiles.simps)
  next
    case None
    let ?rest = "register_fields_compiles A D depth fs r1"
    from None f have log: "register_fields_compiles A D depth (f # fs) r = ?first @ ?rest"
      by simp
    from None Cons.prems f have rest: "register_fields A D depth fs r1 = Some (r', e)" by simp
    note p2 = Cons.IH [OF rest]
    note k2 = register_fields_post [OF register_message_type_keeps rest]
    from p1 None have in1: "\<forall>m\<in>set ?first. m2p (namespace r1) (?name m) \<noteq> None" by simp
    from p2 have out2: "\<forall>m\<in>set ?rest. m2p (namespace r1) (?name m) = None" by simp
    have disj: "?name ` set ?first \<inter> ?name ` set ?rest = {}"
    proof (rule ccontr)
      assume "?name ` set ?first \<inter> ?name ` set ?rest \<noteq> {}"
      then obtain a b where a: "a \<in> set ?first" and b: "b \<in> set ?rest"
        and eq: "?name a = ?name b" by auto
      from in1 a have "m2p (namespace r1) (?name a) \<noteq> None" by blast
      moreover from out2 b have "m2p (namespace r1) (?name b) = None" by blast
      ultimately show False using eq by simp
    qed
    from p1 p2 disj have d: "distinct (map ?name (?first @ ?rest))" by simp
    have before: "\<forall>m\<in>set (?first @ ?rest). m2p (namespace r) (?name m) = None"
    proof
      fix m
      assume "m \<in> set (?first @ ?rest)"
      then consider "m \<in> set ?first" | "m \<in> set ?rest" by auto
      then show "m2p (namespace r) (?name m) = None"
      proof cases
        case 1
        with p1 show ?thesis by blast
      next
        case 2
        with out2 have none: "m2p (namespace r1) (?name m) = None" by blast
        show ?thesis
        proof (cases "m2p (namespace r) (?name m)")
          case None
          then show ?thesis .
        next
          case (Some v)
          with k1 have "m2p (namespace r1) (?name m) = Some v" by blast
          with none show ?thesis by simp
        qed
      qed
    qed
    have after: "e = None \<longrightarrow> (\<forall>m\<in>set (?first @ ?rest). m2p (namespace r') (?name m) \<noteq> None)"
    proof (intro impI ballI)
      fix m
      assume e: "e = None" and "m \<in> set (?first @ ?rest)"
      then consider "m \<in> set ?first" | "m \<in> set ?rest" by auto
      then show "m2p (namespace r') (?name m) \<noteq> None"
      proof cases
        case 1
        with in1 obtain v where "m2p (namespace r1) (?name m) = Some v" by blast
        with k2 have "m2p (namespace r') (?name m) = Some v" by blast
        then show ?thesis by simp
      next
        case 2
        with p2 e show ?thesis by blast
      qed
    qed
    from d before after show ?thesis unfolding log by blast
  qed
qed

lemma register_message_type_compiles_once:
  "register_message_type A D depth mt r = Some (r', e) \<Longrightarrow>
      distinct (map (\<lambda>m. message_full_name (D m)) (register_message_type_compiles A D depth mt r))
      \<and> (\<forall>m\<in>set (register_message_type_compiles A D depth mt r).
            m2p (namespace r) (message_full_name (D m)) = None)
      \<and> (e = None \<longrightarrow> (\<forall>m\<in>set (register_message_type_compiles A D depth mt r).
            m2p (namespace r') (message_full_name (D m)) \<noteq> None))"
proof (induction depth arbitrary: mt r r' e)
  case 0
  then show ?case by simp
next
  case (Suc depth)
  let ?name = "\<lambda>m. message_full_name (D m)"
  from Suc.IH have IH: "\<forall>mt r r' e. register_message_type A D depth mt r = Some (r', e) \<longrightarrow>
      distinct (map ?name (register_message_type_compiles A D depth mt r))
      \<and> (\<forall>m\<in>set (register_message_type_compiles A D depth mt r).
            m2p (namespace r) (?name m) = None)
      \<and> (e = None \<longrightarrow> (\<forall>m\<in>set (register_message_type_compiles A D depth mt r).
            m2p (namespace r') (?name m) \<noteq> None))"
    by blast
  show ?case
  proof (cases "m2p (namespace r) (?name mt) \<noteq> None")
    case True
    then show ?thesis by simp
  next
    case False
    then have none: "m2p (namespace r) (?name mt) = None" by simp
    let ?fn = "?name mt"
    let ?r1 = "r\<lparr>registering := insert mt (registering r)\<rparr>"
    show ?thesis
    proof (cases "m2p_lambda A mt ?fn (namespace ?r1)")
      case (Inl err)
      with none have log: "register_message_type_compiles A D (Suc depth) mt r = [mt]" by simp
      from Suc.prems none Inl obtain err' where "e = Some err'"
        by (auto simp: Let_def finally_remove_def setters split: if_splits)
      with none show ?thesis unfolding log by simp
    next
      case f: (Inr f)
      let ?r2 = "set_m2p ?fn (compiled f) ?r1"
      show ?thesis
      proof (cases "p2m_lambda A mt ?fn (namespace ?r2)")
        case (Inl err)
        with none f have log: "register_message_type_compiles A D (Suc depth) mt r = [mt]"
          by simp
        from Suc.prems none f Inl obtain err' where "e = Some err'"
          by (auto simp: Let_def finally_remove_def setters split: if_splits)
        with none show ?thesis unfolding log by simp
      next
        case g: (Inr g)
        let ?r3 = "set_p2m ?fn (compiled g) ?r2"
        let ?rest = "register_fields_compiles A D depth (message_fields (D mt)) ?r3"
        from none f g have log: "register_message_type_compiles A D (Suc depth) mt r = mt # ?rest"
          by (simp add: Let_def)
        from Suc.prems none f g obtain r4 e4 where
          fs: "register_fields A D depth (message_fields (D mt)) ?r3 = Some (r4, e4)"
          by (auto simp: Let_def split: option.splits)
        from Suc.prems none f g fs have r': "m2p (namespace r') = m2p (namespace r4)"
          and e: "e = None \<longrightarrow> e4 = None"
          by (auto simp: Let_def finally_remove_def setters split: option.splits sum.splits if_splits)
        note p = register_fields_compiles_once [OF IH fs]
        note k = register_fields_post [OF register_message_type_keeps fs]
        have r3: "m2p (namespace ?r3) = (m2p (namespace r))(?fn \<mapsto> compiled f)"
          by (simp add: setters)
        from p have out: "\<forall>m\<in>set ?rest. m2p (namespace ?r3) (?name m) = None" by blast
        have fresh: "?fn \<notin> ?name ` set ?rest"
        proof
          assume "?fn \<in> ?name ` set ?rest"
          then obtain m where m: "m \<in> set ?rest" and eq: "?name m = ?fn" by auto
          from out m have "m2p (namespace ?r3) (?name m) = None" by blast
          with eq r3 show False by simp
        qed
        from p fresh have d: "distinct (map ?name (mt # ?rest))" by simp
        have before: "\<forall>m\<in>set (mt # ?rest). m2p (namespace r) (?name m) = None"
        proof
          fix m
          assume "m \<in> set (mt # ?rest)"
          then consider "m = mt" | "m \<in> set ?rest" by auto
          then show "m2p (namespace r) (?name m) = None"
          proof cases
            case 1
            with none show ?thesis by simp
          next
            case 2
            with out have n3: "m2p (namespace ?r3) (?name m) = None" by blast
            from 2 have "?name m \<in> ?name ` set ?rest" by (rule imageI)
            with fresh have "?name m \<noteq> ?fn" by metis
            with n3 r3 show ?thesis by simp
          qed
        qed
        have after: "e = None \<longrightarrow> (\<forall>m\<in>set (mt # ?rest). m2p (namespace r') (?name m) \<noteq> None)"
        proof (intro impI ballI)
          fix m
          assume e0: "e = None" and "m \<in> set (mt # ?rest)"
          then consider "m = mt" | "m \<in> set ?rest" by auto
          then show "m2p (namespace r') (?name m) \<noteq> None"
          proof cases
            case 1
            from r3 have "m2p (namespace ?r3) ?fn = Some (compiled f)" by simp
            with k have "m2p (namespace r4) ?fn = Some (compiled f)" by blast
            with r' 1 show ?thesis by simp
          next
            case 2
            from e e0 have "e4 = None" by simp
            with p 2 have "m2p (namespace r4) (?name m) \<noteq> None" by blast
            with r' show ?thesis by simp
          qed
        qed
        from d before after show ?thesis unfolding log by blast
      qed
    qed
  qed
qed

section \<open>Properties of the constructed registry\<close>

lemma register_wrappers_enums:
  "register_wrappers A ws ns = Inr ns' \<Longrightarrow> i2s ns' = i2s ns \<and> s2i ns' = s2i ns"
proof (induction ws arbitrary: ns)
  case Nil
  then show ?case by simp
next
  case (Cons w ws)
  obtain full_name wrapper where w: "w = (full_name, wrapper)" by (cases w)
  from Cons.prems w obtain ns1 where
    rest: "register_wrappers A ws ns1 = Inr ns'" and
    ns1: "i2s ns1 = i2s ns \<and> s2i ns1 = s2i ns"
    by (auto simp: Let_def split: sum.splits)
  from Cons.IH [OF rest] ns1 show ?case by simp
qed

lemma register_wrappers_m2p_dom:
  "register_wrappers A ws ns = Inr ns' \<Longrightarrow> dom (m2p ns') = dom (m2p ns) \<union> fst ` set ws"
proof (induction ws arbitrary: ns)
  case Nil
  then show ?case by simp
next
  case (Cons w ws)
  obtain full_name wrapper where w: "w = (full_name, wrapper)" by (cases w)
  from Cons.prems w obtain ns1 where
    rest: "register_wrappers A ws ns1 = Inr ns'" and
    ns1: "dom (m2p ns1) = insert full_name (dom (m2p ns))"
    by (auto simp: Let_def split: sum.splits)
  from Cons.IH [OF rest] ns1 w show ?case by auto
qed

lemma register_failures_enums:
  "i2s (register_failures names ns) = i2s ns \<and> s2i (register_failures names ns) = s2i ns"
  by (induction names arbitrary: ns) (simp_all add: Let_def)

lemma register_failures_other:
  "k \<notin> (\<lambda>n. ''google.protobuf.'' @ n) ` set names \<Longrightarrow>
     m2p (register_failures names ns) k = m2p ns k \<and> p2m (register_failures names ns) k = p2m ns k"
  by (induction names arbitrary: ns) (auto simp: Let_def)

lemma register_failures_named:
  "name \<in> set names \<Longrightarrow>
     m2p (register_failures names ns) (''google.protobuf.'' @ name)
       = Some (partial_fail (''google.protobuf.'' @ name))
   \<and> p2m (register_failures names ns) (''google.protobuf.'' @ name)
       = Some (partial_fail (''google.protobuf.'' @ name))"
proof (induction names arbitrary: ns)
  case Nil
  then show ?case by simp
next
  case (Cons n names)
  show ?case
  proof (cases "name \<in> set names")
    case True
    with Cons.IH show ?thesis by (simp add: Let_def)
  next
    case False
    with Cons.prems have n: "n = name" by simp
    from False have "''google.protobuf.'' @ name \<notin> (\<lambda>n. ''google.protobuf.'' @ n) ` set names"
      by auto
    note other = register_failures_other [OF this]
    from n show ?thesis
      by (simp add: Let_def other [THEN conjunct1, simplified] other [THEN conjunct2, simplified])
  qed
qed

lemma init_registering: "init A dict_cls = Inr r \<Longrightarrow> registering r = {}"
  by (auto simp: init_def split: sum.splits)

lemma init_namespace:
  assumes "init A dict_cls = Inr r"
  obtains ns3 where
    "register_wrappers A (GOOGLE_PROTOBUF_WRAPPERS A)
       \<lparr>ns_d = dict_cls, m2p = Map.empty, p2m = Map.empty, f2p = Map.empty,
        p2f = Map.empty,
        i2s = [''google.protobuf.NullValue'' \<mapsto> [(PyInt 0, PyNone)]],
        s2i = [''google.protobuf.NullValue'' \<mapsto> [(PyNone, PyInt 0)]],
        ns_c = Map.empty\<rparr> = Inr ns3"
    and "namespace r = register_failures not_implemented_names ns3"
  using assms
  by (auto simp: init_def register_google_types_def Let_def split: sum.splits)

text \<open>The keys of \<^verbatim>\<open>m2p\<close> after construction: the wrappers and the seven failing types.\<close>

lemma init_m2p_dom:
  assumes "init A dict_cls = Inr r"
  shows "dom (m2p (namespace r))
       \<subseteq> fst ` set (GOOGLE_PROTOBUF_WRAPPERS A)
           \<union> (\<lambda>n. ''google.protobuf.'' @ n) ` set not_implemented_names"
proof
  fix k
  assume k: "k \<in> dom (m2p (namespace r))"
  from assms obtain ns3 where
    w: "register_wrappers A (GOOGLE_PROTOBUF_WRAPPERS A)
       \<lparr>ns_d = dict_cls, m2p = Map.empty, p2m = Map.empty, f2p = Map.empty,
        p2f = Map.empty,
        i2s = [''google.protobuf.NullValue'' \<mapsto> [(PyInt 0, PyNone)]],
        s2i = [''google.protobuf.NullValue'' \<mapsto> [(PyNone, PyInt 0)]],
        ns_c = Map.empty\<rparr> = Inr ns3"
    and ns: "namespace r = register_failures not_implemented_names ns3"
    by (rule init_namespace)
  show "k \<in> fst ` set (GOOGLE_PROTOBUF_WRAPPERS A)
           \<union> (\<lambda>n. ''google.protobuf.'' @ n) ` set not_implemented_names"
  proof (cases "k \<in> (\<lambda>n. ''google.protobuf.'' @ n) ` set not_implemented_names")
    case True
    then show ?thesis by blast
  next
    case False
    from register_failures_other [OF False, of ns3] ns k
    have "k \<in> dom (m2p ns3)" by (simp add: dom_def)
    with register_wrappers_m2p_dom [OF w] show ?thesis by simp
  qed
qed

lemma example_init:
  "\<not> fails ''<p2m/google.protobuf.Int32Value>'' \<Longrightarrow>
     \<exists>r. init (example_astcast fails) dict_cls = Inr r"
  by (simp add: init_def register_google_types_def example_astcast_def bind_raise_def Let_def)

text \<open>
  Claim C8: after construction, for each of the seven names \<^verbatim>\<open>ListValue\<close>,
  \<^verbatim>\<open>Struct\<close>, \<^verbatim>\<open>Value\<close>, \<^verbatim>\<open>Any\<close>, \<^verbatim>\<open>Duration\<close>, \<^verbatim>\<open>FieldMask\<close> and
  \<^verbatim>\<open>Timestamp\<close>, both \<^verbatim>\<open>m2p\<close> and \<^verbatim>\<open>p2m\<close> hold, under the full name
  \<^verbatim>\<open>google.protobuf.\<close>\<open>name\<close>, the callable \<^verbatim>\<open>partial(fail, full_name)\<close>; calling it
  with any input raises \<^verbatim>\<open>NotImplementedError\<close> with that full name, and so do
  \<^verbatim>\<open>proto2py\<close> and \<^verbatim>\<open>py2proto\<close> for a message or a message class of that name.
\<close>

theorem not_implemented_types_raise:
  assumes "init A dict_cls = Inr r"
    and "name \<in> set [''ListValue'', ''Struct'', ''Value'', ''Any'', ''Duration'',
                      ''FieldMask'', ''Timestamp'']"
    and "descriptor_full_name message = ''google.protobuf.'' @ name"
  shows "m2p (namespace r) (''google.protobuf.'' @ name)
           = Some (partial_fail (''google.protobuf.'' @ name))
       \<and> p2m (namespace r) (''google.protobuf.'' @ name)
           = Some (partial_fail (''google.protobuf.'' @ name))
       \<and> call ext (partial_fail (''google.protobuf.'' @ name)) x
           = Inl (NotImplementedError (''google.protobuf.'' @ name))
       \<and> proto2py ext descriptor_full_name r message
           = Inl (NotImplementedError (''google.protobuf.'' @ name))
       \<and> py2proto ext descriptor_full_name r message data
           = Inl (NotImplementedError (''google.protobuf.'' @ name))"
proof -
  from assms(2) have listed: "name \<in> set not_implemented_names"
    by (simp only: not_implemented_names_def)
  from assms(1) obtain ns3 where
    ns: "namespace r = register_failures not_implemented_names ns3"
    by (rule init_namespace)
  from register_failures_named [OF listed, of ns3] ns
  have "m2p (namespace r) (''google.protobuf.'' @ name)
           = Some (partial_fail (''google.protobuf.'' @ name))
     \<and> p2m (namespace r) (''google.protobuf.'' @ name)
           = Some (partial_fail (''google.protobuf.'' @ name))"
    by simp
  with assms(3) show ?thesis
    by (simp add: fail_def proto2py_def py2proto_def)
qed

text \<open>
  The seven types in the registry built with the example instance of \<^verbatim>\<open>_astcast\<close>:
  each has the failing callable in \<^verbatim>\<open>m2p\<close> and in \<^verbatim>\<open>p2m\<close>, and \<^verbatim>\<open>proto2py\<close> and
  \<^verbatim>\<open>py2proto\<close> raise \<^verbatim>\<open>NotImplementedError\<close> with the full name of the type.
\<close>

theorem not_implemented_types_raise_witness:
  "\<exists>r. init (example_astcast (\<lambda>file_name. False)) ''AttrDict'' = Inr r
     \<and> list_all
          (\<lambda>name.
             m2p (namespace r) (''google.protobuf.'' @ name)
               = Some (partial_fail (''google.protobuf.'' @ name))
           \<and> p2m (namespace r) (''google.protobuf.'' @ name)
               = Some (partial_fail (''google.protobuf.'' @ name))
           \<and> proto2py (\<lambda>f x. Inr x) (\<lambda>message. ''google.protobuf.'' @ message) r name
               = (Inl (NotImplementedError (''google.protobuf.'' @ name)) :: error + string)
           \<and> py2proto (\<lambda>f x. Inr x) (\<lambda>message. ''google.protobuf.'' @ message) r name
               ''2026-01-01''
               = (Inl (NotImplementedError (''google.protobuf.'' @ name)) :: error + string))
          [''ListValue'', ''Struct'', ''Value'', ''Any'', ''Duration'', ''FieldMask'',
           ''Timestamp'']
     \<and> proto2py (\<lambda>f x. Inr x) (\<lambda>message. ''google.protobuf.'' @ message) r ''Struct''
          = (Inl (NotImplementedError ''google.protobuf.Struct'') :: error + string)
     \<and> py2proto (\<lambda>f x. Inr x) (\<lambda>message. ''google.protobuf.'' @ message) r ''Timestamp''
          ''2026-01-01''
          = (Inl (NotImplementedError ''google.protobuf.Timestamp'') :: error + string)"
proof -
  let ?names = "[''ListValue'', ''Struct'', ''Value'', ''Any'', ''Duration'', ''FieldMask'',
                 ''Timestamp'']"
  let ?P = "\<lambda>r name.
             m2p (namespace r) (''google.protobuf.'' @ name)
               = Some (partial_fail (''google.protobuf.'' @ name))
           \<and> p2m (namespace r) (''google.protobuf.'' @ name)
               = Some (partial_fail (''google.protobuf.'' @ name))
           \<and> proto2py (\<lambda>f x. Inr x) (\<lambda>message. ''google.protobuf.'' @ message) r name
               = (Inl (NotImplementedError (''google.protobuf.'' @ name)) :: error + string)
           \<and> py2proto (\<lambda>f x. Inr x) (\<lambda>message. ''google.protobuf.'' @ message) r name
               ''2026-01-01''
               = (Inl (NotImplementedError (''google.protobuf.'' @ name)) :: error + string)"
  obtain r where r: "init (example_astcast (\<lambda>file_name. False)) ''AttrDict'' = Inr r"
    using example_init [of "\<lambda>file_name. False"] by auto
  have each: "?P r name" if "name \<in> set ?names" for name
  proof -
    note t = not_implemented_types_raise
      [where A = "example_astcast (\<lambda>file_name. False)" and dict_cls = "''AttrDict''"
         and r = r and name = name
         and descriptor_full_name = "\<lambda>message :: string. ''google.protobuf.'' @ message"
         and message = name and ext = "\<lambda>f (x :: string). Inr x"
         and x = "''2026-01-01''" and data = "''2026-01-01''", OF r that refl]
    then show ?thesis by blast
  qed
  then have "\<forall>name\<in>set ?names. ?P r name" by blast
  then have all: "list_all (?P r) ?names" by (simp only: list_all_iff)
  have "?P r ''Struct''" by (rule each) simp
  then have s: "proto2py (\<lambda>f x. Inr x) (\<lambda>message. ''google.protobuf.'' @ message) r ''Struct''
          = (Inl (NotImplementedError ''google.protobuf.Struct'') :: error + string)"
    by simp
  have "?P r ''Timestamp''" by (rule each) simp
  then have t: "py2proto (\<lambda>f x. Inr x) (\<lambda>message. ''google.protobuf.'' @ message) r
          ''Timestamp'' ''2026-01-01''
          = (Inl (NotImplementedError ''google.protobuf.Timestamp'') :: error + string)"
    by simp
  from r all s t show ?thesis by blast
qed

text \<open>
  Claim C10: after construction the enum dictionaries stored for
  \<^verbatim>\<open>google.protobuf.NullValue\<close> are \<^verbatim>\<open>{0: None}\<close> in \<^verbatim>\<open>i2s\<close> and \<^verbatim>\<open>{None: 0}\<close> in
  \<^verbatim>\<open>s2i\<close>: the number 0 maps to \<^verbatim>\<open>None\<close>, not to a name, and \<^verbatim>\<open>None\<close> maps to 0.
\<close>

theorem init_NullValue:
  assumes "init A dict_cls = Inr r"
  shows "i2s (namespace r) ''google.protobuf.NullValue'' = Some [(PyInt 0, PyNone)]
       \<and> s2i (namespace r) ''google.protobuf.NullValue'' = Some [(PyNone, PyInt 0)]"
proof -
  from assms obtain ns3 where
    w: "register_wrappers A (GOOGLE_PROTOBUF_WRAPPERS A)
       \<lparr>ns_d = dict_cls, m2p = Map.empty, p2m = Map.empty, f2p = Map.empty,
        p2f = Map.empty,
        i2s = [''google.protobuf.NullValue'' \<mapsto> [(PyInt 0, PyNone)]],
        s2i = [''google.protobuf.NullValue'' \<mapsto> [(PyNone, PyInt 0)]],
        ns_c = Map.empty\<rparr> = Inr ns3"
    and ns: "namespace r = register_failures not_implemented_names ns3"
    by (rule init_namespace)
  from register_wrappers_enums [OF w] ns show ?thesis
    by (simp add: register_failures_enums)
qed

text \<open>The registry built with the example instance of \<^verbatim>\<open>_astcast\<close>.\<close>

theorem init_NullValue_witness:
  "\<exists>r. init (example_astcast (\<lambda>file_name. False)) ''AttrDict'' = Inr r
      \<and> i2s (namespace r) ''google.protobuf.NullValue'' = Some [(PyInt 0, PyNone)]
      \<and> map_of [(PyInt 0, PyNone)] (PyInt 0) = Some PyNone
      \<and> s2i (namespace r) ''google.protobuf.NullValue'' = Some [(PyNone, PyInt 0)]
      \<and> map_of [(PyNone, PyInt 0)] PyNone = Some (PyInt 0)"
proof -
  obtain r where r: "init (example_astcast (\<lambda>file_name. False)) ''AttrDict'' = Inr r"
    using example_init [of "\<lambda>file_name. False"] by auto
  from init_NullValue [OF r] r show ?thesis
    by (intro exI [of _ r]) simp
qed

section \<open>Registration: the claims\<close>

lemma card_unregistered_le:
  assumes "finite M"
  shows "card ((\<lambda>m. message_full_name (D m)) ` M - dom (m2p (namespace r))) \<le> card M"
proof -
  from assms have "card ((\<lambda>m. message_full_name (D m)) ` M - dom (m2p (namespace r)))
      \<le> card ((\<lambda>m. message_full_name (D m)) ` M)"
    by (intro card_mono) auto
  also from assms have "\<dots> \<le> card M" by (rule card_image_le)
  finally show ?thesis .
qed

text \<open>
  With a bound above the number of messages of a finite graph that is closed under the
  references of its fields, the call returns: normally or with an exception.
\<close>

lemma register_message_type_total:
  assumes fin: "finite M"
    and closed: "\<forall>m\<in>M. \<forall>f\<in>set (message_fields (D m)). \<forall>m'.
                   field_message_type f = Some m' \<longrightarrow> m' \<in> M"
    and mt: "mt \<in> M"
  shows "\<exists>r' e. register_message_type A D (Suc (card M)) mt r = Some (r', e)"
proof -
  from card_unregistered_le [OF fin, of D r]
  have "card ((\<lambda>m. message_full_name (D m)) ` M - dom (m2p (namespace r))) < Suc (card M)"
    by simp
  from register_message_type_returns [OF fin closed mt this]
  show ?thesis by auto
qed

lemma example_init_Node:
  assumes "init (example_astcast fails) dict_cls = Inr r"
  shows "m2p (namespace r) ''tests.Node'' = None"
proof -
  from init_m2p_dom [OF assms]
  have "''tests.Node'' \<notin> dom (m2p (namespace r))"
    by (auto simp: example_astcast_def not_implemented_names_def)
  then show ?thesis by (simp add: dom_def)
qed

text \<open>
  Registering \<^verbatim>\<open>Node\<close> in a registry that has no entry for it: the call returns
  normally when no lambda fails.
\<close>

lemma example_register_Node:
  assumes "m2p (namespace r) ''tests.Node'' = None" and "registering r = {}"
  shows "\<exists>r'. register_message_type (example_astcast (\<lambda>file_name. False)) example_descriptors
            (Suc (Suc 0)) 0 r = Some (r', None)"
  using assms
  by (simp add: example_astcast_def example_descriptors_def m2p_lambda_def p2m_lambda_def
      field_lambda_def register_field_lambdas_def bind_raise_def finally_remove_def setters
      Let_def)

text \<open>
  For a message descriptor that is not in the set of descriptors in progress, a call of
  \<^verbatim>\<open>register_message_type\<close> returns (on a finite graph of messages, with the depth
  of calls it needs), and however it returns, normally or with an exception of any step,
  the descriptor is not in the set afterwards; the set is what it was before the call.
\<close>

lemma register_message_type_restores_registering:
  assumes "finite M"
    and "\<forall>m\<in>M. \<forall>f\<in>set (message_fields (D m)). \<forall>m'.
           field_message_type f = Some m' \<longrightarrow> m' \<in> M"
    and "mt \<in> M"
    and "mt \<notin> registering r"
  shows "(\<exists>r' e. register_message_type A D (Suc (card M)) mt r = Some (r', e))
       \<and> (\<forall>depth r' e. register_message_type A D depth mt r = Some (r', e) \<longrightarrow>
             mt \<notin> registering r' \<and> registering r' = registering r)"
proof
  from assms(1-3) show "\<exists>r' e. register_message_type A D (Suc (card M)) mt r = Some (r', e)"
    by (rule register_message_type_total)
  show "\<forall>depth r' e. register_message_type A D depth mt r = Some (r', e) \<longrightarrow>
          mt \<notin> registering r' \<and> registering r' = registering r"
  proof (intro allI impI)
    fix depth r' e
    assume "register_message_type A D depth mt r = Some (r', e)"
    from register_message_type_post [OF this] assms(4)
    show "mt \<notin> registering r' \<and> registering r' = registering r"
      by (auto split: if_splits)
  qed
qed

text \<open>
  The entry of \<^verbatim>\<open>m2p\<close> is stored as the first step of the body, before the steps that
  can still raise, and the \<^verbatim>\<open>finally\<close> clause does not remove it: a call that raises
  after that step leaves the entry behind, and every later call for the same name
  returns at once, whatever instance of \<^verbatim>\<open>_astcast\<close> it runs with.
\<close>

lemma register_message_type_skips_registered:
  assumes "m2p (namespace r) (message_full_name (D mt)) \<noteq> None"
  shows "register_message_type A D (Suc depth) mt r = Some (r, None)"
    and "register_message_type_compiles A D (Suc depth) mt r = []"
  using assms by simp_all

text \<open>
  The registry built with the example instance of \<^verbatim>\<open>_astcast\<close> holds nothing for the
  message \<^verbatim>\<open>Node\<close> and its fields.
\<close>

lemma example_init_state:
  assumes "init (example_astcast fails) dict_cls = Inr r"
  shows "registering r = {}"
    and "m2p (namespace r) ''tests.Node'' = None"
    and "p2m (namespace r) ''tests.Node'' = None"
    and "ns_c (namespace r) ''tests.Node'' = None"
    and "f2p (namespace r) ''tests.Node.next'' = None"
    and "p2f (namespace r) ''tests.Node.next'' = None"
  using assms
  by (auto simp: init_def register_google_types_def example_astcast_def bind_raise_def
      not_implemented_names_def setters Let_def split: sum.splits if_splits)

text \<open>
  Registering \<^verbatim>\<open>Node\<close> while the lambda for \<^verbatim>\<open>p2m\<close> fails: the call raises, and the
  registry it leaves has the entry of \<^verbatim>\<open>m2p\<close> and is otherwise as before.
\<close>

lemma example_register_Node_fails_state:
  assumes "m2p (namespace r) ''tests.Node'' = None" and "registering r = {}"
  shows "\<exists>r1. register_message_type
            (example_astcast (\<lambda>file_name. file_name = ''<p2m/tests.Node>'')) example_descriptors
            (Suc (Suc 0)) 0 r = Some (r1, Some (Raised ''SyntaxError in <p2m/tests.Node>''))
          \<and> registering r1 = {}
          \<and> m2p (namespace r1) ''tests.Node'' = Some (compiled ''<m2p/tests.Node>'')
          \<and> p2m (namespace r1) = p2m (namespace r)
          \<and> ns_c (namespace r1) = ns_c (namespace r)
          \<and> f2p (namespace r1) = f2p (namespace r)
          \<and> p2f (namespace r1) = p2f (namespace r)"
  using assms
  by (simp add: example_astcast_def example_descriptors_def m2p_lambda_def p2m_lambda_def
      field_lambda_def register_field_lambdas_def bind_raise_def finally_remove_def setters
      Let_def)

text \<open>
  Registering \<^verbatim>\<open>Node\<close> when no lambda fails: the call returns normally and the
  registry has the entries of \<^verbatim>\<open>p2m\<close>, of the constructors and of the fields.
\<close>

lemma example_register_Node_state:
  assumes "m2p (namespace r) ''tests.Node'' = None" and "registering r = {}"
  shows "\<exists>r2. register_message_type (example_astcast (\<lambda>file_name. False)) example_descriptors
            (Suc (Suc 0)) 0 r = Some (r2, None)
          \<and> p2m (namespace r2) ''tests.Node'' = Some (compiled ''<p2m/tests.Node>'')
          \<and> ns_c (namespace r2) ''tests.Node'' = Some ''Node''
          \<and> p2f (namespace r2) ''tests.Node.next'' = Some (compiled ''<p2m/tests.Node.next>'')"
  using assms
  by (simp add: example_astcast_def example_descriptors_def m2p_lambda_def p2m_lambda_def
      field_lambda_def register_field_lambdas_def bind_raise_def finally_remove_def setters
      Let_def)

text \<open>
  Claim C3: \<^verbatim>\<open>register_message_type\<close> removes the descriptor from the set of
  descriptors in progress on every exit path, so that a later registration of the same
  type is not blocked. The first half holds of the code. The second does not: the code
  stores the entry of \<^verbatim>\<open>m2p\<close> before the steps that can raise, and the test of
  \<^verbatim>\<open>m2p\<close> at the head of the method, commented \<^verbatim>\<open>Nothing to do\<close>, then ends every
  later call at once. In the registry after construction, registering the message
  \<^verbatim>\<open>Node\<close> while the lambda for \<^verbatim>\<open>p2m\<close> fails raises and leaves \<^verbatim>\<open>Node\<close> out of the
  set in progress, with an entry in \<^verbatim>\<open>m2p\<close> and none in \<^verbatim>\<open>p2m\<close>, in the constructors
  and for its fields. Registering \<^verbatim>\<open>Node\<close> again, now with no lambda failing, returns
  normally, compiles nothing and changes nothing, so that \<^verbatim>\<open>py2proto\<close> for \<^verbatim>\<open>Node\<close>
  raises \<^verbatim>\<open>KeyError\<close>; the same call in the registry after construction registers
  \<^verbatim>\<open>Node\<close> in full.
\<close>

theorem register_message_type_failure_blocks_retry:
  "\<exists>r. init (example_astcast (\<lambda>file_name. file_name = ''<p2m/tests.Node>'')) ''AttrDict'' = Inr r
     \<and> init (example_astcast (\<lambda>file_name. False)) ''AttrDict'' = Inr r
     \<and> 0 \<notin> registering r
     \<and> (\<exists>r1. register_message_type
                 (example_astcast (\<lambda>file_name. file_name = ''<p2m/tests.Node>''))
                 example_descriptors (Suc (Suc 0)) 0 r
               = Some (r1, Some (Raised ''SyntaxError in <p2m/tests.Node>''))
           \<and> 0 \<notin> registering r1
           \<and> registering r1 = registering r
           \<and> m2p (namespace r1) ''tests.Node'' = Some (compiled ''<m2p/tests.Node>'')
           \<and> p2m (namespace r1) ''tests.Node'' = None
           \<and> ns_c (namespace r1) ''tests.Node'' = None
           \<and> f2p (namespace r1) ''tests.Node.next'' = None
           \<and> p2f (namespace r1) ''tests.Node.next'' = None
           \<and> register_message_type (example_astcast (\<lambda>file_name. False))
                 example_descriptors (Suc (Suc 0)) 0 r1 = Some (r1, None)
           \<and> register_message_type_compiles (example_astcast (\<lambda>file_name. False))
                 example_descriptors (Suc (Suc 0)) 0 r1 = []
           \<and> py2proto (\<lambda>f x. Inr x) (\<lambda>message_cls. ''tests.Node'') r1 ''Node'' ''data''
               = (Inl (KeyError_name ''tests.Node'') :: error + string))
     \<and> (\<exists>r2. register_message_type (example_astcast (\<lambda>file_name. False))
                 example_descriptors (Suc (Suc 0)) 0 r = Some (r2, None)
           \<and> p2m (namespace r2) ''tests.Node'' = Some (compiled ''<p2m/tests.Node>'')
           \<and> ns_c (namespace r2) ''tests.Node'' = Some ''Node''
           \<and> p2f (namespace r2) ''tests.Node.next''
               = Some (compiled ''<p2m/tests.Node.next>''))"
proof -
  let ?F = "example_astcast (\<lambda>file_name. file_name = ''<p2m/tests.Node>'')"
  let ?A = "example_astcast (\<lambda>file_name. False)"
  obtain r where r: "init ?F ''AttrDict'' = Inr r"
    using example_init [of "\<lambda>file_name. file_name = ''<p2m/tests.Node>''"] by auto
  have same: "init ?A ''AttrDict'' = init ?F ''AttrDict''"
    by (simp add: init_def register_google_types_def example_astcast_def bind_raise_def Let_def)
  with r have r_ok: "init ?A ''AttrDict'' = Inr r" by simp
  note st = example_init_state [OF r]
  from st(1) have none: "0 \<notin> registering r" by simp
  from example_register_Node_fails_state [OF st(2) st(1)]
  obtain r1 where
    call: "register_message_type ?F example_descriptors (Suc (Suc 0)) 0 r
      = Some (r1, Some (Raised ''SyntaxError in <p2m/tests.Node>''))"
    and reg: "registering r1 = {}"
    and m: "m2p (namespace r1) ''tests.Node'' = Some (compiled ''<m2p/tests.Node>'')"
    and rest: "p2m (namespace r1) = p2m (namespace r)" "ns_c (namespace r1) = ns_c (namespace r)"
      "f2p (namespace r1) = f2p (namespace r)" "p2f (namespace r1) = p2f (namespace r)"
    by blast
  have name: "message_full_name (example_descriptors 0) = ''tests.Node''"
    by (simp add: example_descriptors_def)
  from m name have entry: "m2p (namespace r1) (message_full_name (example_descriptors 0)) \<noteq> None"
    by simp
  note retry = register_message_type_skips_registered
    [where D = example_descriptors and mt = 0 and r = r1 and A = ?A and depth = "Suc 0",
     OF entry]
  from rest st have absent: "p2m (namespace r1) ''tests.Node'' = None"
    "ns_c (namespace r1) ''tests.Node'' = None"
    "f2p (namespace r1) ''tests.Node.next'' = None"
    "p2f (namespace r1) ''tests.Node.next'' = None"
    by simp_all
  from absent(1) have conv:
    "py2proto (\<lambda>f x. Inr x) (\<lambda>message_cls. ''tests.Node'') r1 ''Node'' ''data''
       = (Inl (KeyError_name ''tests.Node'') :: error + string)"
    by (simp add: py2proto_def)
  from reg st(1) have regs: "0 \<notin> registering r1" "registering r1 = registering r" by simp_all
  from call regs m absent retry conv have first:
    "\<exists>r1. register_message_type ?F example_descriptors (Suc (Suc 0)) 0 r
               = Some (r1, Some (Raised ''SyntaxError in <p2m/tests.Node>''))
           \<and> 0 \<notin> registering r1
           \<and> registering r1 = registering r
           \<and> m2p (namespace r1) ''tests.Node'' = Some (compiled ''<m2p/tests.Node>'')
           \<and> p2m (namespace r1) ''tests.Node'' = None
           \<and> ns_c (namespace r1) ''tests.Node'' = None
           \<and> f2p (namespace r1) ''tests.Node.next'' = None
           \<and> p2f (namespace r1) ''tests.Node.next'' = None
           \<and> register_message_type ?A example_descriptors (Suc (Suc 0)) 0 r1 = Some (r1, None)
           \<and> register_message_type_compiles ?A example_descriptors (Suc (Suc 0)) 0 r1 = []
           \<and> py2proto (\<lambda>f x. Inr x) (\<lambda>message_cls. ''tests.Node'') r1 ''Node'' ''data''
               = (Inl (KeyError_name ''tests.Node'') :: error + string)"
    by (intro exI [of _ r1] conjI)
  note second = example_register_Node_state [OF st(2) st(1)]
  from r r_ok none first second show ?thesis by blast
qed

lemma example_init_A_B:
  assumes "init (example_astcast fails) dict_cls = Inr r"
  shows "m2p (namespace r) ''tests.A'' = None" and "m2p (namespace r) ''tests.B'' = None"
proof -
  from init_m2p_dom [OF assms]
  have "''tests.A'' \<notin> dom (m2p (namespace r)) \<and> ''tests.B'' \<notin> dom (m2p (namespace r))"
    by (auto simp: example_astcast_def not_implemented_names_def)
  then show "m2p (namespace r) ''tests.A'' = None" and "m2p (namespace r) ''tests.B'' = None"
    by (simp_all add: dom_def)
qed

text \<open>
  Registering \<^verbatim>\<open>A\<close> in a registry that has no entry for \<^verbatim>\<open>A\<close> and \<^verbatim>\<open>B\<close>: the call
  tree compiles \<^verbatim>\<open>A\<close>, then \<^verbatim>\<open>B\<close> for the field \<^verbatim>\<open>A.b\<close>, and nothing for the field
  \<^verbatim>\<open>B.a\<close>, whose type is in progress.
\<close>

lemma example_compiles_A:
  assumes "m2p (namespace r) ''tests.A'' = None" and "m2p (namespace r) ''tests.B'' = None"
    and "registering r = {}"
  shows "register_message_type_compiles (example_astcast (\<lambda>file_name. False))
           example_descriptors (Suc (Suc (Suc 0))) (Suc 0) r = [Suc 0, Suc (Suc 0)]"
  using assms
  by (simp add: example_astcast_def example_descriptors_def m2p_lambda_def p2m_lambda_def
      field_lambda_def register_field_lambdas_def bind_raise_def finally_remove_def setters
      Let_def)

text \<open>
  Claim C4: on a finite graph of messages that is closed under the references of its
  fields, also when a message refers to itself or two messages refer to each other,
  \<^verbatim>\<open>register_message_type\<close> returns within a depth of calls of one more than the
  number of messages. A field whose message type is in progress does not lead to a call
  of \<^verbatim>\<open>register_message_type\<close>: \<^verbatim>\<open>register_field_type\<close> goes straight to the lambdas
  of the field and compiles no message. The messages the call tree compiles are
  distinct, by descriptor and by full name: each message is compiled at most once.
\<close>

theorem register_message_type_terminates:
  assumes "finite M"
    and "\<forall>m\<in>M. \<forall>f\<in>set (message_fields (D m)). \<forall>m'.
           field_message_type f = Some m' \<longrightarrow> m' \<in> M"
    and "mt \<in> M"
  shows "(\<exists>r' e. register_message_type A D (Suc (card M)) mt r = Some (r', e))
       \<and> (\<forall>depth field m. field_message_type field = Some m \<longrightarrow> m \<in> registering r \<longrightarrow>
             register_field_type A D depth field r = Some (register_field_lambdas A field r)
             \<and> register_field_type_compiles A D depth field r = [])
       \<and> distinct (register_message_type_compiles A D (Suc (card M)) mt r)
       \<and> distinct (map (\<lambda>m. message_full_name (D m))
                     (register_message_type_compiles A D (Suc (card M)) mt r))"
proof (intro conjI)
  from assms show ret: "\<exists>r' e. register_message_type A D (Suc (card M)) mt r = Some (r', e)"
    by (rule register_message_type_total)
  show "\<forall>depth field m. field_message_type field = Some m \<longrightarrow> m \<in> registering r \<longrightarrow>
          register_field_type A D depth field r = Some (register_field_lambdas A field r)
          \<and> register_field_type_compiles A D depth field r = []"
    by simp
  from ret obtain r' e where
    "register_message_type A D (Suc (card M)) mt r = Some (r', e)" by blast
  from register_message_type_compiles_once [OF this]
  show names: "distinct (map (\<lambda>m. message_full_name (D m))
                     (register_message_type_compiles A D (Suc (card M)) mt r))"
    by blast
  then show "distinct (register_message_type_compiles A D (Suc (card M)) mt r)"
    by (simp add: distinct_map)
qed

text \<open>
  The messages \<^verbatim>\<open>A\<close> and \<^verbatim>\<open>B\<close>, which refer to each other: registering \<^verbatim>\<open>A\<close>
  returns, and compiles \<^verbatim>\<open>A\<close> and \<^verbatim>\<open>B\<close> once each.
\<close>

theorem register_message_type_terminates_witness:
  "finite {Suc 0, Suc (Suc 0)} \<and> Suc 0 \<in> {Suc 0, Suc (Suc 0)}
   \<and> (\<exists>r. init (example_astcast (\<lambda>file_name. False)) ''AttrDict'' = Inr r
        \<and> (\<exists>r' e. register_message_type (example_astcast (\<lambda>file_name. False))
                     example_descriptors (Suc (card {Suc 0, Suc (Suc 0)})) (Suc 0) r
                   = Some (r', e))
        \<and> register_message_type_compiles (example_astcast (\<lambda>file_name. False))
            example_descriptors (Suc (card {Suc 0, Suc (Suc 0)})) (Suc 0) r
            = [Suc 0, Suc (Suc 0)]
        \<and> distinct (register_message_type_compiles (example_astcast (\<lambda>file_name. False))
            example_descriptors (Suc (card {Suc 0, Suc (Suc 0)})) (Suc 0) r))"
proof -
  let ?A = "example_astcast (\<lambda>file_name. False)"
  let ?M = "{Suc 0, Suc (Suc 0)}"
  obtain r where r: "init ?A ''AttrDict'' = Inr r"
    using example_init [of "\<lambda>file_name. False"] by auto
  have fin: "finite ?M" and mem: "Suc 0 \<in> ?M" by simp_all
  have closed: "\<forall>m\<in>?M. \<forall>f\<in>set (message_fields (example_descriptors m)). \<forall>m'.
         field_message_type f = Some m' \<longrightarrow> m' \<in> ?M"
    by (simp add: example_descriptors_def)
  have card: "Suc (card ?M) = Suc (Suc (Suc 0))" by simp
  note t = register_message_type_terminates [OF fin closed mem, of ?A r]
  from t have ret: "\<exists>r' e. register_message_type ?A example_descriptors (Suc (card ?M))
      (Suc 0) r = Some (r', e)"
    by (rule conjunct1)
  from t have d: "distinct (register_message_type_compiles ?A example_descriptors
      (Suc (card ?M)) (Suc 0) r)"
    by blast
  have log: "register_message_type_compiles ?A example_descriptors (Suc (card ?M)) (Suc 0) r
      = [Suc 0, Suc (Suc 0)]"
    unfolding card
    by (rule example_compiles_A [OF example_init_A_B [OF r] init_registering [OF r]])
  from fin mem r ret log d show ?thesis by blast
qed

text \<open>
  Claim C9: when the full name of the message has an entry in \<^verbatim>\<open>m2p\<close>,
  \<^verbatim>\<open>register_message_type\<close> returns at once and leaves the whole registry (every
  dictionary of the namespace and the set of descriptors in progress) as it was; and
  after a call that returned normally the full name has such an entry, so that a second
  registration of the same message changes nothing.
\<close>

theorem register_message_type_idempotent:
  "(m2p (namespace r) (message_full_name (D mt)) \<noteq> None \<longrightarrow>
      register_message_type A D (Suc depth) mt r = Some (r, None))
   \<and> (register_message_type A D depth' mt r = Some (r', None) \<longrightarrow>
        register_message_type A D (Suc depth) mt r' = Some (r', None))"
proof (intro conjI impI)
  assume "m2p (namespace r) (message_full_name (D mt)) \<noteq> None"
  then show "register_message_type A D (Suc depth) mt r = Some (r, None)" by simp
next
  assume "register_message_type A D depth' mt r = Some (r', None)"
  then have "m2p (namespace r') (message_full_name (D mt)) \<noteq> None"
    by (rule register_message_type_registered)
  then show "register_message_type A D (Suc depth) mt r' = Some (r', None)" by simp
qed

text \<open>The message \<^verbatim>\<open>Node\<close> registered twice.\<close>

theorem register_message_type_idempotent_witness:
  "\<exists>r r'. init (example_astcast (\<lambda>file_name. False)) ''AttrDict'' = Inr r
     \<and> register_message_type (example_astcast (\<lambda>file_name. False)) example_descriptors
          (Suc (Suc 0)) 0 r = Some (r', None)
     \<and> m2p (namespace r') (message_full_name (example_descriptors 0)) \<noteq> None
     \<and> register_message_type (example_astcast (\<lambda>file_name. False)) example_descriptors
          (Suc 0) 0 r' = Some (r', None)"
proof -
  let ?A = "example_astcast (\<lambda>file_name. False)"
  obtain r where r: "init ?A ''AttrDict'' = Inr r"
    using example_init [of "\<lambda>file_name. False"] by auto
  from example_register_Node [OF example_init_Node [OF r] init_registering [OF r]]
  obtain r' where r': "register_message_type ?A example_descriptors (Suc (Suc 0)) 0 r
      = Some (r', None)"
    by blast
  note twice = register_message_type_idempotent
    [where r = r and r' = r' and D = example_descriptors and mt = 0 and A = ?A
       and depth = 0 and depth' = "Suc (Suc 0)"]
  from twice r' have second:
    "register_message_type ?A example_descriptors (Suc 0) 0 r' = Some (r', None)"
    by blast
  from register_message_type_registered [OF r']
  have "m2p (namespace r') (message_full_name (example_descriptors 0)) \<noteq> None" .
  with r r' second show ?thesis by blast
qed

section \<open>Registration of an enum over an existing entry\<close>

lemma NullValue_prefix: "derived_prefix NullValue = ''NULL_VALUE_''"
  by (simp add: derived_prefix_def NullValue_def pascal2snake_def char_tables)

text \<open>
  The only value of \<^verbatim>\<open>NullValue\<close> is \<^verbatim>\<open>NULL_VALUE\<close>, which does not start with the
  derived prefix \<^verbatim>\<open>NULL_VALUE_\<close>: both dictionaries keep the whole name, and each of the
  two calls of \<^verbatim>\<open>create_enum_dict\<close> issues the warning.
\<close>

lemma create_enum_dict_NullValue:
  "create_enum_dict NullValue ''int2str'' None =
     ([DynaGrpcWarning ''Missing values prefix in enum google.protobuf.NullValue''],
      Inr [(PyInt 0, PyStr ''NULL_VALUE'')])"
  "create_enum_dict NullValue ''str2int'' None =
     ([DynaGrpcWarning ''Missing values prefix in enum google.protobuf.NullValue''],
      Inr [(PyStr ''NULL_VALUE'', PyInt 0)])"
  by (simp_all add: create_enum_dict_def NullValue_prefix)
     (simp_all add: NullValue_def null_value_def startswith_def enum_pairs_def
        dict_comprehension_def)

text \<open>
  \<^verbatim>\<open>register_enum_type\<close> has no test of the key: whatever the registry holds for the
  full name of the enum, the two dictionaries of the call are stored.
\<close>

lemma register_enum_type_stores:
  assumes "create_enum_dict enum_type ''int2str'' None = (w1, Inr dict1)"
    and "create_enum_dict enum_type ''str2int'' None = (w2, Inr dict2)"
  shows "register_enum_type enum_type r =
           (w1 @ w2,
            (set_s2i (enum_full_name enum_type) dict2
               (set_i2s (enum_full_name enum_type) dict1 r), None))"
  using assms by (simp add: register_enum_type_def Let_def)

lemma init_enums:
  assumes "init A dict_cls = Inr r"
  shows "i2s (namespace r) = [''google.protobuf.NullValue'' \<mapsto> [(PyInt 0, PyNone)]]"
    and "s2i (namespace r) = [''google.protobuf.NullValue'' \<mapsto> [(PyNone, PyInt 0)]]"
proof -
  from assms obtain ns3 where
    w: "register_wrappers A (GOOGLE_PROTOBUF_WRAPPERS A)
       \<lparr>ns_d = dict_cls, m2p = Map.empty, p2m = Map.empty, f2p = Map.empty,
        p2f = Map.empty,
        i2s = [''google.protobuf.NullValue'' \<mapsto> [(PyInt 0, PyNone)]],
        s2i = [''google.protobuf.NullValue'' \<mapsto> [(PyNone, PyInt 0)]],
        ns_c = Map.empty\<rparr> = Inr ns3"
    and ns: "namespace r = register_failures not_implemented_names ns3"
    by (rule init_namespace)
  from register_wrappers_enums [OF w] ns
  show "i2s (namespace r) = [''google.protobuf.NullValue'' \<mapsto> [(PyInt 0, PyNone)]]"
    and "s2i (namespace r) = [''google.protobuf.NullValue'' \<mapsto> [(PyNone, PyInt 0)]]"
    by (simp_all add: register_failures_enums)
qed

text \<open>
  Claim C1: a slot of the namespace that is populated is not overwritten by a later
  registration of the same schema, in particular not the entries of
  \<^verbatim>\<open>google.protobuf.NullValue\<close> installed at construction. The code does not behave so
  for enums. In the registry after construction, which holds \<^verbatim>\<open>{0: None}\<close> and
  \<^verbatim>\<open>{None: 0}\<close> for \<^verbatim>\<open>google.protobuf.NullValue\<close>, the call of \<^verbatim>\<open>register_enum_type\<close>
  with the descriptor of that enum returns normally, with the warning of the missing
  prefix issued twice, and the registry then holds \<^verbatim>\<open>{0: "NULL_VALUE"}\<close> and
  \<^verbatim>\<open>{"NULL_VALUE": 0}\<close>: the number 0 no longer maps to \<^verbatim>\<open>None\<close>. The other
  slots of the namespace and the set of descriptors in progress are as before.
\<close>

theorem register_enum_type_overwrites_NullValue:
  "\<exists>r. init (example_astcast (\<lambda>file_name. False)) ''AttrDict'' = Inr r
     \<and> i2s (namespace r) ''google.protobuf.NullValue'' = Some [(PyInt 0, PyNone)]
     \<and> s2i (namespace r) ''google.protobuf.NullValue'' = Some [(PyNone, PyInt 0)]
     \<and> (\<exists>r'. register_enum_type NullValue r =
               ([DynaGrpcWarning ''Missing values prefix in enum google.protobuf.NullValue'',
                 DynaGrpcWarning ''Missing values prefix in enum google.protobuf.NullValue''],
                (r', None))
           \<and> i2s (namespace r') ''google.protobuf.NullValue''
               = Some [(PyInt 0, PyStr ''NULL_VALUE'')]
           \<and> s2i (namespace r') ''google.protobuf.NullValue''
               = Some [(PyStr ''NULL_VALUE'', PyInt 0)]
           \<and> map_of [(PyInt 0, PyStr ''NULL_VALUE'')] (PyInt 0) \<noteq> Some PyNone
           \<and> m2p (namespace r') = m2p (namespace r)
           \<and> p2m (namespace r') = p2m (namespace r)
           \<and> f2p (namespace r') = f2p (namespace r)
           \<and> p2f (namespace r') = p2f (namespace r)
           \<and> ns_c (namespace r') = ns_c (namespace r)
           \<and> registering r' = registering r)"
proof -
  obtain r where r: "init (example_astcast (\<lambda>file_name. False)) ''AttrDict'' = Inr r"
    using example_init [of "\<lambda>file_name. False"] by auto
  let ?r' = "set_s2i (enum_full_name NullValue) [(PyStr ''NULL_VALUE'', PyInt 0)]
               (set_i2s (enum_full_name NullValue) [(PyInt 0, PyStr ''NULL_VALUE'')] r)"
  have call: "register_enum_type NullValue r =
      ([DynaGrpcWarning ''Missing values prefix in enum google.protobuf.NullValue'',
        DynaGrpcWarning ''Missing values prefix in enum google.protobuf.NullValue''],
       (?r', None))"
    using register_enum_type_stores [OF create_enum_dict_NullValue, of r] by simp
  have name: "enum_full_name NullValue = ''google.protobuf.NullValue''"
    by (simp add: NullValue_def)
  have after: "i2s (namespace ?r') ''google.protobuf.NullValue''
                 = Some [(PyInt 0, PyStr ''NULL_VALUE'')]"
    "s2i (namespace ?r') ''google.protobuf.NullValue''
                 = Some [(PyStr ''NULL_VALUE'', PyInt 0)]"
    "m2p (namespace ?r') = m2p (namespace r)"
    "p2m (namespace ?r') = p2m (namespace r)"
    "f2p (namespace ?r') = f2p (namespace r)"
    "p2f (namespace ?r') = p2f (namespace r)"
    "ns_c (namespace ?r') = ns_c (namespace r)"
    "registering ?r' = registering r"
    by (simp_all add: name set_i2s_def set_s2i_def)
  have before: "i2s (namespace r) ''google.protobuf.NullValue'' = Some [(PyInt 0, PyNone)]"
    "s2i (namespace r) ''google.protobuf.NullValue'' = Some [(PyNone, PyInt 0)]"
    by (simp_all add: init_enums [OF r])
  from r before call after show ?thesis
    by (intro exI [of _ r] conjI exI [of _ ?r']) simp_all
qed

end
